theory Spec2Isabelle
  imports Complex_Main "HOL-Library.Multiset" "HOL-Library.List_Lexorder"
begin

section \<open>Data model\<close>

text \<open>
  The repository holds three iterations of one React component. They are referred to as
  \<^item> variant 1: \<^verbatim>\<open>src/unnamed/part_000\<close> (no pagination),
  \<^item> variant 2: \<^verbatim>\<open>src/library_gutendex/src/Query.jsx\<close> (pagination, first-author year filter),
  \<^item> variant 3: \<^verbatim>\<open>src/unnamed/part_001\<close> (pagination, min/max year filter).
  Functions whose text is the same in variants 2 and 3 (\<^verbatim>\<open>fetchPage\<close>, \<^verbatim>\<open>getBookList\<close>,
  \<^verbatim>\<open>searchBooks\<close>, \<^verbatim>\<open>sortBooks\<close> and the controller) are modelled once, without a suffix;
  the others carry the suffix of their variant.
\<close>

record author =
  name :: string
  birth_year :: "int option"
  death_year :: "int option"

record book =
  book_id :: int
  title :: string
  authors :: "author list"
  languages :: "string list"
  subjects :: "string list"
  bookshelves :: "string list"
  download_count :: int
  release_date :: "string option"
  formats :: "(string \<times> string) list"

text \<open>
  The decoded response body \<^verbatim>\<open>{count, next, previous, results}\<close>; \<^verbatim>\<open>null\<close> is \<open>None\<close>. A body
  that decodes to a value of another shape is outside the model.
\<close>

record page =
  p_count :: int
  p_next :: "string option"
  p_previous :: "string option"
  p_results :: "book list"

text \<open>
  What \<^verbatim>\<open>await fetch(url)\<close> followed by \<^verbatim>\<open>await response.json()\<close> can do: the first may
  throw (transport failure), the second may throw (the body does not decode), or a body
  is delivered.
\<close>

datatype response = TransportFailure | DecodeFailure | Body page

type_synonym network = "string \<Rightarrow> response"

datatype jserror = TypeError | Rejected string

section \<open>JavaScript numbers as far as the code uses them\<close>

text \<open>
  A Number is \<^verbatim>\<open>NaN\<close>, an infinity, or a finite value. The code only compares numbers,
  takes minima and maxima and the sign of a difference; none of these rounds, so a finite
  value is kept as a real.
\<close>

datatype jsnum = NaN | NegInf | Fin real | PosInf

fun js_le :: "jsnum \<Rightarrow> jsnum \<Rightarrow> bool" where
  "js_le NaN _ = False"
| "js_le _ NaN = False"
| "js_le NegInf _ = True"
| "js_le _ PosInf = True"
| "js_le (Fin a) (Fin b) = (a \<le> b)"
| "js_le _ _ = False"

fun js_min2 :: "jsnum \<Rightarrow> jsnum \<Rightarrow> jsnum" where
  "js_min2 NaN _ = NaN"
| "js_min2 _ NaN = NaN"
| "js_min2 a b = (if js_le a b then a else b)"

fun js_max2 :: "jsnum \<Rightarrow> jsnum \<Rightarrow> jsnum" where
  "js_max2 NaN _ = NaN"
| "js_max2 _ NaN = NaN"
| "js_max2 a b = (if js_le a b then b else a)"

text \<open>\<^verbatim>\<open>Math.min(...xs)\<close> is \<^verbatim>\<open>Infinity\<close> and \<^verbatim>\<open>Math.max(...xs)\<close> is \<^verbatim>\<open>-Infinity\<close> on no arguments.\<close>

definition Math_min :: "jsnum list \<Rightarrow> jsnum" where
  "Math_min xs = foldr js_min2 xs PosInf"

definition Math_max :: "jsnum list \<Rightarrow> jsnum" where
  "Math_max xs = foldr js_max2 xs NegInf"

fun js_sub :: "jsnum \<Rightarrow> jsnum \<Rightarrow> jsnum" where
  "js_sub NaN _ = NaN"
| "js_sub _ NaN = NaN"
| "js_sub (Fin a) (Fin b) = Fin (a - b)"
| "js_sub PosInf PosInf = NaN"
| "js_sub NegInf NegInf = NaN"
| "js_sub PosInf _ = PosInf"
| "js_sub NegInf _ = NegInf"
| "js_sub (Fin a) PosInf = NegInf"
| "js_sub (Fin a) NegInf = PosInf"

definition num_of_int :: "int \<Rightarrow> jsnum" where
  "num_of_int i = Fin (of_int i)"

text \<open>In a relational comparison \<^verbatim>\<open>null\<close> converts to \<^verbatim>\<open>+0\<close>.\<close>

definition num_of_nullable :: "int option \<Rightarrow> jsnum" where
  "num_of_nullable y = (case y of None \<Rightarrow> Fin 0 | Some i \<Rightarrow> num_of_int i)"

text \<open>
  The conversion of the string \<^verbatim>\<open>filterValue\<close> to a number in \<^verbatim>\<open>year <= filterValue\<close>
  belongs to the language, not to the repository; the filters take it as the parameter
  \<open>toNumber\<close>. \<open>decimalToNumber\<close> is its restriction to strings of decimal digits, on
  which the two agree; every other string is sent to \<^verbatim>\<open>NaN\<close> here.
\<close>

definition digit_val :: "char \<Rightarrow> nat" where
  "digit_val c = of_char c - 48"

definition is_digit :: "char \<Rightarrow> bool" where
  "is_digit c = (48 \<le> (of_char c :: nat) \<and> (of_char c :: nat) \<le> 57)"

definition decimalToNumber :: "string \<Rightarrow> jsnum" where
  "decimalToNumber s =
     (if s \<noteq> [] \<and> list_all is_digit s
      then Fin (of_nat (foldl (\<lambda>acc c. 10 * acc + digit_val c) 0 s))
      else NaN)"

section \<open>Strings: template literals and \<^verbatim>\<open>encodeURIComponent\<close>\<close>

text \<open>A string is its UTF-8 byte sequence. \<open>String_of_int\<close> is what \<^verbatim>\<open>${page}\<close> prints.\<close>

definition digit_char :: "nat \<Rightarrow> char" where
  "digit_char d = ''0123456789'' ! d"

function digits_of :: "nat \<Rightarrow> string" where
  "digits_of n = (if n < 10 then [digit_char n] else digits_of (n div 10) @ [digit_char (n mod 10)])"
  by pat_completeness auto
termination
  by (relation "measure id") auto

definition String_of_int :: "int \<Rightarrow> string" where
  "String_of_int i = (if i < 0 then CHR ''-'' # digits_of (nat (- i)) else digits_of (nat i))"

text \<open>
  \<^verbatim>\<open>encodeURIComponent\<close> leaves letters, digits and \<^verbatim>\<open>- _ . ! ~ * ' ( )\<close> alone and
  writes every other byte of the UTF-8 encoding as \<^verbatim>\<open>%XX\<close> in upper-case hexadecimal.
\<close>

definition uri_unreserved :: "char \<Rightarrow> bool" where
  "uri_unreserved c =
     (let n = (of_char c :: nat) in
        (65 \<le> n \<and> n \<le> 90) \<or> (97 \<le> n \<and> n \<le> 122) \<or> (48 \<le> n \<and> n \<le> 57)
        \<or> c \<in> set ''-_.!~*'()'')"

definition hex_digit :: "nat \<Rightarrow> char" where
  "hex_digit d = ''0123456789ABCDEF'' ! d"

definition percent_byte :: "char \<Rightarrow> string" where
  "percent_byte c =
     (let n = (of_char c :: nat) in [CHR ''%'', hex_digit (n div 16), hex_digit (n mod 16)])"

definition encodeURIComponent :: "string \<Rightarrow> string" where
  "encodeURIComponent s = concat (map (\<lambda>c. if uri_unreserved c then [c] else percent_byte c) s)"

section \<open>CatalogClient\<close>

text \<open>
  A client operation returns the list of URLs it fetched together with its result, so that
  "no network call" is the empty list. A rejected promise is \<open>Inl\<close>.
\<close>

definition emptyPage :: page where
  "emptyPage = \<lparr>p_count = 0, p_next = None, p_previous = None, p_results = []\<rparr>"

subsection \<open>Variants 2 and 3\<close>

definition API_BASE_URL :: string where
  "API_BASE_URL = ''https://gutendex.com''"

definition fetchPage :: "network \<Rightarrow> string \<Rightarrow> string list \<times> page" where
  "fetchPage net url =
     ([url], case net url of Body data \<Rightarrow> data | TransportFailure \<Rightarrow> emptyPage | DecodeFailure \<Rightarrow> emptyPage)"

definition bookListUrl :: "string \<Rightarrow> int \<Rightarrow> string" where
  "bookListUrl sortOrder pg =
     API_BASE_URL @ ''/books?sort='' @ sortOrder @ ''&page='' @ String_of_int pg"

definition getBookList :: "network \<Rightarrow> string \<Rightarrow> int \<Rightarrow> string list \<times> page" where
  "getBookList net sortOrder pg = fetchPage net (bookListUrl sortOrder pg)"

definition validSearchTypes :: "string list" where
  "validSearchTypes = [''topic'', ''default'']"

definition searchUrl :: "string \<Rightarrow> string \<Rightarrow> string \<Rightarrow> int \<Rightarrow> string" where
  "searchUrl query searchType sortOrder pg =
     (if searchType = ''topic''
      then API_BASE_URL @ ''/books?topic='' @ encodeURIComponent query
             @ ''&sort='' @ sortOrder @ ''&page='' @ String_of_int pg
      else API_BASE_URL @ ''/books?search='' @ encodeURIComponent query
             @ ''&sort='' @ sortOrder @ ''&page='' @ String_of_int pg)"

definition searchBooks ::
  "network \<Rightarrow> string \<Rightarrow> string \<Rightarrow> string \<Rightarrow> int \<Rightarrow> string list \<times> (jserror + page)" where
  "searchBooks net query searchType sortOrder pg =
     (if searchType \<notin> set validSearchTypes
      then ([], Inl (Rejected ''Invalid search type.''))
      else (case fetchPage net (searchUrl query searchType sortOrder pg) of
              (reqs, data) \<Rightarrow> (reqs, Inr data)))"

subsection \<open>Variant 1\<close>

text \<open>Variant 1 has no pagination: its operations deliver \<^verbatim>\<open>data.results\<close>, and \<^verbatim>\<open>[]\<close> on failure.\<close>

definition API_BASE_URL_v1 :: string where
  "API_BASE_URL_v1 = ''https://www.gutendex.com''"

definition getBookList_v1 :: "network \<Rightarrow> string \<Rightarrow> string list \<times> book list" where
  "getBookList_v1 net sortOrder =
     (let url = API_BASE_URL_v1 @ ''/books?sort='' @ sortOrder in
        ([url], case net url of Body data \<Rightarrow> p_results data | TransportFailure \<Rightarrow> [] | DecodeFailure \<Rightarrow> []))"

definition validSearchTypes_v1 :: "string list" where
  "validSearchTypes_v1 = [''title'', ''topic'', ''release_date'', ''author'']"

definition searchBooks_v1 ::
  "network \<Rightarrow> string \<Rightarrow> string \<Rightarrow> string \<Rightarrow> string list \<times> (jserror + book list)" where
  "searchBooks_v1 net query searchType sortOrder =
     (if searchType \<notin> set validSearchTypes_v1
      then ([], Inl (Rejected ''Invalid search type.''))
      else (let url = API_BASE_URL_v1 @ ''/books?search='' @ encodeURIComponent query
                        @ ''&sort='' @ sortOrder in
              ([url], Inr (case net url of Body data \<Rightarrow> p_results data
                                         | TransportFailure \<Rightarrow> [] | DecodeFailure \<Rightarrow> []))))"

section \<open>ResultTransformer\<close>

subsection \<open>\<^verbatim>\<open>Array.prototype.sort\<close> with a comparator\<close>

text \<open>
  The sort of the language is stable, and it reads a comparator result \<^verbatim>\<open>NaN\<close> as
  \<^verbatim>\<open>+0\<close>. For a consistent comparator the stable sorted permutation is unique, so any
  stable algorithm stands for it; insertion from the right is used here. In
  \<open>insert_sorted\<close> the new element goes before the first element it does not exceed.
\<close>

definition cmp_le :: "('a \<Rightarrow> 'a \<Rightarrow> jsnum) \<Rightarrow> 'a \<Rightarrow> 'a \<Rightarrow> bool" where
  "cmp_le cmp a b = (case cmp a b of NaN \<Rightarrow> True | v \<Rightarrow> js_le v (Fin 0))"

fun insert_sorted :: "('a \<Rightarrow> 'a \<Rightarrow> bool) \<Rightarrow> 'a \<Rightarrow> 'a list \<Rightarrow> 'a list" where
  "insert_sorted le x [] = [x]"
| "insert_sorted le x (y # ys) = (if le x y then x # y # ys else y # insert_sorted le x ys)"

definition sort_by :: "('a \<Rightarrow> 'a \<Rightarrow> bool) \<Rightarrow> 'a list \<Rightarrow> 'a list" where
  "sort_by le xs = foldr (insert_sorted le) xs []"

definition Array_sort :: "('a \<Rightarrow> 'a \<Rightarrow> jsnum) \<Rightarrow> 'a list \<Rightarrow> 'a list" where
  "Array_sort cmp xs = sort_by (cmp_le cmp) xs"

text \<open>
  \<^verbatim>\<open>a.localeCompare(b)\<close> is a consistent comparator that totally orders all strings; which
  order depends on the locale. It is given by a collation key \<open>ck\<close> into a linear order.
\<close>

definition localeCompare :: "(string \<Rightarrow> 'k::linorder) \<Rightarrow> string \<Rightarrow> string \<Rightarrow> jsnum" where
  "localeCompare ck a b = (if ck a < ck b then Fin (- 1) else if ck a = ck b then Fin 0 else Fin 1)"

subsection \<open>\<^verbatim>\<open>sortBooks\<close>, variants 2 and 3\<close>

definition cmp_ascending_popular :: "book \<Rightarrow> book \<Rightarrow> jsnum" where
  "cmp_ascending_popular a b = js_sub (num_of_int (download_count a)) (num_of_int (download_count b))"

definition cmp_descending_popular :: "book \<Rightarrow> book \<Rightarrow> jsnum" where
  "cmp_descending_popular a b = js_sub (num_of_int (download_count b)) (num_of_int (download_count a))"

definition cmp_alphabetical :: "(string \<Rightarrow> 'k::linorder) \<Rightarrow> book \<Rightarrow> book \<Rightarrow> jsnum" where
  "cmp_alphabetical ck a b = localeCompare ck (title a) (title b)"

definition cmp_reverse_alphabetical :: "(string \<Rightarrow> 'k::linorder) \<Rightarrow> book \<Rightarrow> book \<Rightarrow> jsnum" where
  "cmp_reverse_alphabetical ck a b = localeCompare ck (title b) (title a)"

text \<open>The value \<^verbatim>\<open>sortBooks\<close> resolves to, as a list.\<close>

definition sortBooks :: "(string \<Rightarrow> 'k::linorder) \<Rightarrow> book list \<Rightarrow> string \<Rightarrow> book list" where
  "sortBooks ck books sortOrder =
     (if sortOrder = ''ascending_popular'' then Array_sort cmp_ascending_popular books
      else if sortOrder = ''descending_popular'' then Array_sort cmp_descending_popular books
      else if sortOrder = ''alphabetical'' then Array_sort (cmp_alphabetical ck) books
      else if sortOrder = ''reverse_alphabetical'' then Array_sort (cmp_reverse_alphabetical ck) books
      else books)"

text \<open>
  The same function on a store of arrays, where an array reference is an index of the
  store: \<^verbatim>\<open>slice()\<close> allocates a copy at the end, \<^verbatim>\<open>sort\<close> overwrites the array it is
  called on and returns the same reference.
\<close>

type_synonym heap = "book list list"

definition Array_slice :: "heap \<Rightarrow> nat \<Rightarrow> heap \<times> nat" where
  "Array_slice h r = (h @ [h ! r], length h)"

definition Array_sort_inplace :: "(book \<Rightarrow> book \<Rightarrow> jsnum) \<Rightarrow> heap \<Rightarrow> nat \<Rightarrow> heap \<times> nat" where
  "Array_sort_inplace cmp h r = (h[r := Array_sort cmp (h ! r)], r)"

definition sortBooks_heap :: "(string \<Rightarrow> 'k::linorder) \<Rightarrow> heap \<Rightarrow> nat \<Rightarrow> string \<Rightarrow> heap \<times> nat" where
  "sortBooks_heap ck h books sortOrder =
     (if sortOrder = ''ascending_popular''
      then (case Array_slice h books of (h1, c) \<Rightarrow> Array_sort_inplace cmp_ascending_popular h1 c)
      else if sortOrder = ''descending_popular''
      then (case Array_slice h books of (h1, c) \<Rightarrow> Array_sort_inplace cmp_descending_popular h1 c)
      else if sortOrder = ''alphabetical''
      then (case Array_slice h books of (h1, c) \<Rightarrow> Array_sort_inplace (cmp_alphabetical ck) h1 c)
      else if sortOrder = ''reverse_alphabetical''
      then (case Array_slice h books of (h1, c) \<Rightarrow> Array_sort_inplace (cmp_reverse_alphabetical ck) h1 c)
      else (h, books))"

subsection \<open>\<^verbatim>\<open>sortBooks\<close>, variant 1\<close>

text \<open>
  \<open>dateValue\<close> is the time value of \<^verbatim>\<open>new Date(release_date)\<close>, \<open>None\<close> for an invalid
  date (whose time value is \<^verbatim>\<open>NaN\<close>); it belongs to the language and is a parameter.
\<close>

definition num_of_time :: "real option \<Rightarrow> jsnum" where
  "num_of_time t = (case t of None \<Rightarrow> NaN | Some v \<Rightarrow> Fin v)"

definition cmp_v1 ::
  "(string \<Rightarrow> 'k::linorder) \<Rightarrow> (string option \<Rightarrow> real option) \<Rightarrow> string \<Rightarrow> book \<Rightarrow> book \<Rightarrow> jsnum" where
  "cmp_v1 ck dateValue sortType a b =
     (if sortType = ''alphabetical'' then localeCompare ck (title a) (title b)
      else if sortType = ''reverse_alphabetical'' then localeCompare ck (title b) (title a)
      else if sortType = ''chronological''
      then js_sub (num_of_time (dateValue (release_date a))) (num_of_time (dateValue (release_date b)))
      else if sortType = ''popularity''
      then js_sub (num_of_int (download_count b)) (num_of_int (download_count a))
      else Fin 0)"

definition sortBooks_v1 ::
  "(string \<Rightarrow> 'k::linorder) \<Rightarrow> (string option \<Rightarrow> real option) \<Rightarrow> book list \<Rightarrow> string \<Rightarrow> book list" where
  "sortBooks_v1 ck dateValue books sortType =
     (if sortType = [] then books else Array_sort (cmp_v1 ck dateValue sortType) books)"

text \<open>On the store: \<^verbatim>\<open>[...books]\<close> allocates the copy that is then sorted.\<close>

definition sortBooks_v1_heap ::
  "(string \<Rightarrow> 'k::linorder) \<Rightarrow> (string option \<Rightarrow> real option) \<Rightarrow> heap \<Rightarrow> nat \<Rightarrow> string \<Rightarrow> heap \<times> nat" where
  "sortBooks_v1_heap ck dateValue h books sortType =
     (if sortType = [] then (h, books)
      else (case Array_slice h books of
              (h1, c) \<Rightarrow> Array_sort_inplace (cmp_v1 ck dateValue sortType) h1 c))"

subsection \<open>\<^verbatim>\<open>filterBooks\<close>\<close>

text \<open>
  \<^verbatim>\<open>filterType\<close> and \<^verbatim>\<open>filterValue\<close> are strings (the values of form controls), so
  \<^verbatim>\<open>!filterType\<close> holds exactly for the empty string.
\<close>

definition filterBooks_v1 :: "book list \<Rightarrow> string \<Rightarrow> string \<Rightarrow> book list" where
  "filterBooks_v1 books filterType filterValue =
     (if filterType = [] \<or> filterValue = [] then books
      else if filterType = ''language'' then filter (\<lambda>b. filterValue \<in> set (languages b)) books
      else if filterType = ''topic'' then filter (\<lambda>b. filterValue \<in> set (subjects b)) books
      else books)"

text \<open>
  Variant 2 reads \<^verbatim>\<open>book.authors[0].birth_year\<close>: on an empty \<^verbatim>\<open>authors\<close> the element is
  \<^verbatim>\<open>undefined\<close> and the property access throws a TypeError. The array \<^verbatim>\<open>authorYears\<close> is
  built over all books before the filter runs, and is not used afterwards. (The unused
  \<^verbatim>\<open>languages\<close> array of the \<^verbatim>\<open>language\<close> case cannot throw and is left out.)
\<close>

definition firstAuthor :: "book \<Rightarrow> jserror + author" where
  "firstAuthor b = (case authors b of [] \<Rightarrow> Inl TypeError | a # _ \<Rightarrow> Inr a)"

fun authorYears_v2 :: "book list \<Rightarrow> jserror + int option list" where
  "authorYears_v2 [] = Inr []"
| "authorYears_v2 (b # bs) =
     (case firstAuthor b of
        Inl e \<Rightarrow> Inl e
      | Inr a \<Rightarrow> (case authorYears_v2 bs of
                    Inl e \<Rightarrow> Inl e
                  | Inr ys \<Rightarrow> Inr (birth_year a # death_year a # ys)))"

definition keeps_v2 :: "(string \<Rightarrow> jsnum) \<Rightarrow> string \<Rightarrow> book \<Rightarrow> jserror + bool" where
  "keeps_v2 toNumber filterValue b =
     (case firstAuthor b of
        Inl e \<Rightarrow> Inl e
      | Inr a \<Rightarrow> Inr (js_le (num_of_nullable (birth_year a)) (toNumber filterValue)
                      \<and> js_le (toNumber filterValue) (num_of_nullable (death_year a))))"

fun filter_throwing :: "('a \<Rightarrow> jserror + bool) \<Rightarrow> 'a list \<Rightarrow> jserror + 'a list" where
  "filter_throwing p [] = Inr []"
| "filter_throwing p (x # xs) =
     (case p x of
        Inl e \<Rightarrow> Inl e
      | Inr keep \<Rightarrow> (case filter_throwing p xs of
                       Inl e \<Rightarrow> Inl e
                     | Inr ys \<Rightarrow> Inr (if keep then x # ys else ys)))"

definition filterBooks_v2 ::
  "(string \<Rightarrow> jsnum) \<Rightarrow> book list \<Rightarrow> string \<Rightarrow> string \<Rightarrow> jserror + book list" where
  "filterBooks_v2 toNumber books filterType filterValue =
     (if filterType = [] \<or> filterValue = [] then Inr books
      else if filterType = ''language''
      then Inr (filter (\<lambda>b. filterValue \<in> set (languages b)) books)
      else if filterType = ''author_year''
      then (case authorYears_v2 books of
              Inl e \<Rightarrow> Inl e
            | Inr authorYears \<Rightarrow> filter_throwing (keeps_v2 toNumber filterValue) books)
      else Inr books)"

text \<open>
  Variant 3. \<^verbatim>\<open>Math.min\<close> and \<^verbatim>\<open>Math.max\<close> always deliver a number, so the two tests
  against \<^verbatim>\<open>undefined\<close> are true and do not appear. A year that is \<^verbatim>\<open>null\<close> is \<open>None\<close>.
\<close>

definition keeps_v3 :: "(string \<Rightarrow> jsnum) \<Rightarrow> string \<Rightarrow> book \<Rightarrow> bool" where
  "keeps_v3 toNumber filterValue b =
     (let birthYears = filter (\<lambda>y. y \<noteq> None) (map birth_year (authors b));
          deathYears = filter (\<lambda>y. y \<noteq> None) (map death_year (authors b));
          minBirthYear = Math_min (map num_of_nullable birthYears);
          maxDeathYear = Math_max (map num_of_nullable deathYears)
      in js_le minBirthYear (toNumber filterValue) \<and> js_le (toNumber filterValue) maxDeathYear)"

definition filterBooks_v3 :: "(string \<Rightarrow> jsnum) \<Rightarrow> book list \<Rightarrow> string \<Rightarrow> string \<Rightarrow> book list" where
  "filterBooks_v3 toNumber books filterType filterValue =
     (if filterType = [] \<or> filterValue = [] then books
      else if filterType = ''language'' then filter (\<lambda>b. filterValue \<in> set (languages b)) books
      else if filterType = ''author_year'' then filter (keeps_v3 toNumber filterValue) books
      else books)"

section \<open>QueryController\<close>

text \<open>
  The controller of variants 2 and 3 is the same code around the variant's own
  \<^verbatim>\<open>filterBooks\<close>, which is the parameter \<open>filt\<close> below. The state is the component's
  \<^verbatim>\<open>useState\<close> cells that the handlers and the two derivation effects read or write;
  \<open>requests\<close> records the URLs fetched so far. \<^verbatim>\<open>isAuthorYearFilter\<close> is the cell by which
  the rendering chooses the list it shows. The cells of variant 3 for the loading
  indicator and the status message (\<^verbatim>\<open>isLoading\<close>, \<^verbatim>\<open>message\<close>, \<^verbatim>\<open>searchTrigger\<close>) are not
  part of it.
  A handler that awaits a fetch is taken as one step: the request and the state updates
  of its completion. The click handlers of variant 3 on an author or a bookshelf set
  \<^verbatim>\<open>searchTerm\<close> (and the search type \<^verbatim>\<open>topic\<close>) and then search, which is a sequence of the
  actions below.
\<close>

record qstate =
  searchTerm :: string
  results :: "book list"
  filteredResults :: "book list"
  sortedResults :: "book list"
  sortOrder :: string
  filterType :: string
  filterValue :: string
  selectedSearchType :: string
  nextPageUrl :: "string option"
  prevPageUrl :: "string option"
  currentPage :: int
  isAuthorYearFilter :: bool
  requests :: "string list"

definition init_v2 :: qstate where
  "init_v2 = \<lparr>searchTerm = [], results = [], filteredResults = [], sortedResults = [],
     sortOrder = ''descending_popular'', filterType = [], filterValue = [],
     selectedSearchType = ''default'', nextPageUrl = None, prevPageUrl = None,
     currentPage = 1, isAuthorYearFilter = False, requests = []\<rparr>"

definition init_v3 :: qstate where
  "init_v3 = \<lparr>searchTerm = [], results = [], filteredResults = [], sortedResults = [],
     sortOrder = [], filterType = [], filterValue = [],
     selectedSearchType = ''default'', nextPageUrl = None, prevPageUrl = None,
     currentPage = 1, isAuthorYearFilter = True, requests = []\<rparr>"

text \<open>\<^verbatim>\<open>if (nextPageUrl)\<close>: \<^verbatim>\<open>null\<close> and the empty string are falsy.\<close>

definition truthy :: "string option \<Rightarrow> bool" where
  "truthy u = (case u of None \<Rightarrow> False | Some v \<Rightarrow> v \<noteq> [])"

definition handleSearch :: "network \<Rightarrow> int \<Rightarrow> qstate \<Rightarrow> qstate" where
  "handleSearch net pg s =
     (case searchBooks net (searchTerm s) (selectedSearchType s) (sortOrder s) pg of
        (reqs, Inl e) \<Rightarrow> s\<lparr>requests := requests s @ reqs\<rparr>
      | (reqs, Inr data) \<Rightarrow>
          s\<lparr>results := p_results data, filteredResults := p_results data,
            sortedResults := p_results data, nextPageUrl := p_next data,
            prevPageUrl := p_previous data, currentPage := pg,
            requests := requests s @ reqs\<rparr>)"

definition handleShowAllBooks :: "network \<Rightarrow> int \<Rightarrow> qstate \<Rightarrow> qstate" where
  "handleShowAllBooks net pg s =
     (case getBookList net (sortOrder s) pg of
        (reqs, data) \<Rightarrow>
          s\<lparr>results := p_results data, filteredResults := p_results data,
            sortedResults := p_results data, nextPageUrl := p_next data,
            prevPageUrl := p_previous data, currentPage := pg,
            requests := requests s @ reqs\<rparr>)"

definition handleNextPage :: "network \<Rightarrow> qstate \<Rightarrow> qstate" where
  "handleNextPage net s =
     (if truthy (nextPageUrl s)
      then (if searchTerm s \<noteq> [] then handleSearch net (currentPage s + 1) s
            else handleShowAllBooks net (currentPage s + 1) s)
      else s)"

definition handlePreviousPage :: "network \<Rightarrow> qstate \<Rightarrow> qstate" where
  "handlePreviousPage net s =
     (if truthy (prevPageUrl s)
      then (if searchTerm s \<noteq> [] then handleSearch net (currentPage s - 1) s
            else handleShowAllBooks net (currentPage s - 1) s)
      else s)"

text \<open>
  The two derivation effects. The first (dependencies \<^verbatim>\<open>sortOrder\<close>, \<^verbatim>\<open>results\<close>) writes
  \<^verbatim>\<open>sortedResults\<close> when \<^verbatim>\<open>results\<close> is not empty; the second (dependency
  \<^verbatim>\<open>sortedResults\<close> among others) writes \<^verbatim>\<open>filteredResults\<close>, and an exception thrown by
  \<^verbatim>\<open>filterBooks\<close> escapes from it. \<open>settle\<close> is the state in which both have run and no
  dependency changes any more. It runs both effects whether or not their dependencies
  changed: in a derived state (see \<open>derived\<close> below) an effect that runs again writes
  the value its cell already holds.
\<close>

definition sortEffect :: "(string \<Rightarrow> 'k::linorder) \<Rightarrow> qstate \<Rightarrow> qstate" where
  "sortEffect ck s =
     (if length (results s) > 0 then s\<lparr>sortedResults := sortBooks ck (results s) (sortOrder s)\<rparr>
      else s)"

definition filterEffect ::
  "(book list \<Rightarrow> string \<Rightarrow> string \<Rightarrow> jserror + book list) \<Rightarrow> qstate \<Rightarrow> jserror + qstate" where
  "filterEffect filt s =
     (case filt (sortedResults s) (filterType s) (filterValue s) of
        Inl e \<Rightarrow> Inl e
      | Inr filtered \<Rightarrow> Inr (s\<lparr>filteredResults := filtered\<rparr>))"

definition settle ::
  "(string \<Rightarrow> 'k::linorder) \<Rightarrow> (book list \<Rightarrow> string \<Rightarrow> string \<Rightarrow> jserror + book list)
     \<Rightarrow> qstate \<Rightarrow> jserror + qstate" where
  "settle ck filt s = filterEffect filt (sortEffect ck s)"

text \<open>
  The user's actions; an action that fetches carries what the network answers.
  \<open>YearInput\<close> is a change of the year field of variant 2, which stores the value and
  toggles \<^verbatim>\<open>isAuthorYearFilter\<close> (the function \<^verbatim>\<open>handleApplyAuthorYearFilter\<close> of variant 2,
  which would toggle it too, is bound to no element). No handler of variant 3 writes that
  cell, and a change of its year field (or of its language list) is \<open>SetFilterType\<close>
  followed by \<open>SetFilterValue\<close>.
\<close>

datatype action =
    SetSearchTerm string
  | SetSelectedSearchType string
  | SetSortOrder string
  | SetFilterType string
  | SetFilterValue string
  | YearInput string
  | Search network
  | ShowAllBooks network
  | NextPage network
  | PreviousPage network

fun handle :: "action \<Rightarrow> qstate \<Rightarrow> qstate" where
  "handle (SetSearchTerm v) s = s\<lparr>searchTerm := v\<rparr>"
| "handle (SetSelectedSearchType v) s = s\<lparr>selectedSearchType := v\<rparr>"
| "handle (SetSortOrder v) s = s\<lparr>sortOrder := v\<rparr>"
| "handle (SetFilterType v) s = s\<lparr>filterType := v\<rparr>"
| "handle (SetFilterValue v) s = s\<lparr>filterValue := v\<rparr>"
| "handle (YearInput v) s = s\<lparr>filterValue := v, isAuthorYearFilter := \<not> isAuthorYearFilter s\<rparr>"
| "handle (Search net) s = handleSearch net 1 s"
| "handle (ShowAllBooks net) s = handleShowAllBooks net 1 s"
| "handle (NextPage net) s = handleNextPage net s"
| "handle (PreviousPage net) s = handlePreviousPage net s"

definition step ::
  "(string \<Rightarrow> 'k::linorder) \<Rightarrow> (book list \<Rightarrow> string \<Rightarrow> string \<Rightarrow> jserror + book list)
     \<Rightarrow> action \<Rightarrow> qstate \<Rightarrow> jserror + qstate" where
  "step ck filt a s = settle ck filt (handle a s)"

fun run ::
  "(string \<Rightarrow> 'k::linorder) \<Rightarrow> (book list \<Rightarrow> string \<Rightarrow> string \<Rightarrow> jserror + book list)
     \<Rightarrow> action list \<Rightarrow> qstate \<Rightarrow> jserror + qstate" where
  "run ck filt [] s = Inr s"
| "run ck filt (a # as) s =
     (case step ck filt a s of Inl e \<Rightarrow> Inl e | Inr s' \<Rightarrow> run ck filt as s')"

definition filt_v2 :: "(string \<Rightarrow> jsnum) \<Rightarrow> book list \<Rightarrow> string \<Rightarrow> string \<Rightarrow> jserror + book list" where
  "filt_v2 toNumber = filterBooks_v2 toNumber"

definition filt_v3 :: "(string \<Rightarrow> jsnum) \<Rightarrow> book list \<Rightarrow> string \<Rightarrow> string \<Rightarrow> jserror + book list" where
  "filt_v3 toNumber books ft fv = Inr (filterBooks_v3 toNumber books ft fv)"




section \<open>Notions used to state the properties\<close>

subsection \<open>Client results\<close>

text \<open>A failed fetch: the transport failed or the body did not decode.\<close>

definition failed :: "response \<Rightarrow> bool" where
  "failed r = (case r of Body _ \<Rightarrow> False | TransportFailure \<Rightarrow> True | DecodeFailure \<Rightarrow> True)"

text \<open>
  What a caller receives from a client operation, as a JavaScript value: an object of the
  page shape (variants 2 and 3) or an array of books (variant 1).
\<close>

datatype jsvalue = PageValue page | ArrayValue "book list"

subsection \<open>Orders and ties\<close>

text \<open>
  A comparator is consistent on a set of records when the relation "does not come after"
  that it induces is total and transitive there.
\<close>

definition consistent_on :: "'a set \<Rightarrow> ('a \<Rightarrow> 'a \<Rightarrow> bool) \<Rightarrow> bool" where
  "consistent_on A le =
     ((\<forall>a\<in>A. \<forall>b\<in>A. le a b \<or> le b a) \<and> (\<forall>a\<in>A. \<forall>b\<in>A. \<forall>c\<in>A. le a b \<longrightarrow> le b c \<longrightarrow> le a c))"

text \<open>The four sort orders of variants 2 and 3, in the words of the specification.\<close>

definition supportedSortOrders :: "string list" where
  "supportedSortOrders =
     [''ascending_popular'', ''descending_popular'', ''alphabetical'', ''reverse_alphabetical'']"

definition precedes :: "(string \<Rightarrow> 'k::linorder) \<Rightarrow> string \<Rightarrow> book \<Rightarrow> book \<Rightarrow> bool" where
  "precedes ck so a b =
     (if so = ''ascending_popular'' then download_count a \<le> download_count b
      else if so = ''descending_popular'' then download_count b \<le> download_count a
      else if so = ''alphabetical'' then ck (title a) \<le> ck (title b)
      else if so = ''reverse_alphabetical'' then ck (title b) \<le> ck (title a)
      else True)"

definition ties :: "(string \<Rightarrow> 'k::linorder) \<Rightarrow> string \<Rightarrow> book \<Rightarrow> book \<Rightarrow> bool" where
  "ties ck so a b = (precedes ck so a b \<and> precedes ck so b a)"

text \<open>Two records tie under a comparator when it puts neither after the other.\<close>

definition cmp_ties :: "('a \<Rightarrow> 'a \<Rightarrow> jsnum) \<Rightarrow> 'a \<Rightarrow> 'a \<Rightarrow> bool" where
  "cmp_ties cmp a b = (cmp_le cmp a b \<and> cmp_le cmp b a)"

text \<open>The order each comparator of variant 1 induces, except the chronological one.\<close>

definition precedes_v1 :: "(string \<Rightarrow> 'k::linorder) \<Rightarrow> string \<Rightarrow> book \<Rightarrow> book \<Rightarrow> bool" where
  "precedes_v1 ck st a b =
     (if st = ''alphabetical'' then ck (title a) \<le> ck (title b)
      else if st = ''reverse_alphabetical'' then ck (title b) \<le> ck (title a)
      else if st = ''popularity'' then download_count b \<le> download_count a
      else True)"



subsection \<open>Filters\<close>


text \<open>The test of variant 2 on a record that has a first author.\<close>

definition keeps_first :: "(string \<Rightarrow> jsnum) \<Rightarrow> string \<Rightarrow> book \<Rightarrow> bool" where
  "keeps_first tn fv b =
     (js_le (num_of_nullable (birth_year (hd (authors b)))) (tn fv)
      \<and> js_le (tn fv) (num_of_nullable (death_year (hd (authors b)))))"

text \<open>A record with every author after the first removed.\<close>

definition firstAuthorOnly :: "book \<Rightarrow> book" where
  "firstAuthorOnly b = b\<lparr>authors := take 1 (authors b)\<rparr>"

text \<open>
  The \<^verbatim>\<open>author_year\<close> filter in the words of the specification: the years that are present
  are collected over all authors of the record; the record is kept when there is a birth
  year and a death year and the value lies between the least birth year and the greatest
  death year.
\<close>

fun present :: "'a option list \<Rightarrow> 'a list" where
  "present [] = []"
| "present (None # ys) = present ys"
| "present (Some y # ys) = y # present ys"

definition within_lifespans :: "jsnum \<Rightarrow> book \<Rightarrow> bool" where
  "within_lifespans v b =
     (let births = present (map birth_year (authors b));
          deaths = present (map death_year (authors b))
      in births \<noteq> [] \<and> deaths \<noteq> []
         \<and> js_le (num_of_int (Min (set births))) v \<and> js_le v (num_of_int (Max (set deaths))))"

subsection \<open>The derived view\<close>

text \<open>
  A state is derived when \<^verbatim>\<open>sortedResults\<close> is the sort of \<^verbatim>\<open>results\<close> and
  \<^verbatim>\<open>filteredResults\<close> is the filter of that sorted list, for the current \<^verbatim>\<open>sortOrder\<close>,
  \<^verbatim>\<open>filterType\<close> and \<^verbatim>\<open>filterValue\<close>.
\<close>

definition derived ::
  "(string \<Rightarrow> 'k::linorder) \<Rightarrow> (book list \<Rightarrow> string \<Rightarrow> string \<Rightarrow> jserror + book list)
     \<Rightarrow> qstate \<Rightarrow> bool" where
  "derived ck filt s =
     (sortedResults s = sortBooks ck (results s) (sortOrder s)
      \<and> filt (sortBooks ck (results s) (sortOrder s)) (filterType s) (filterValue s)
          = Inr (filteredResults s))"

section \<open>Concrete inputs\<close>

text \<open>Records, pages and states at which the properties are evaluated.\<close>

definition exampleAuthor :: "string \<Rightarrow> int option \<Rightarrow> int option \<Rightarrow> author" where
  "exampleAuthor n b d = \<lparr>name = n, birth_year = b, death_year = d\<rparr>"

definition exampleBook :: "int \<Rightarrow> string \<Rightarrow> int \<Rightarrow> author list \<Rightarrow> book" where
  "exampleBook i t d as =
     \<lparr>book_id = i, title = t, authors = as, languages = [''en''], subjects = [],
      bookshelves = [], download_count = d, release_date = None, formats = []\<rparr>"

text \<open>A collation that orders strings by their bytes, as one possible locale.\<close>

definition byteOrder :: "string \<Rightarrow> nat list" where
  "byteOrder s = map of_char s"

text \<open>Three records, two of which have the same download count.\<close>

definition exampleResults :: "book list" where
  "exampleResults = [exampleBook 1 ''B'' 5 [], exampleBook 2 ''A'' 9 [], exampleBook 3 ''C'' 5 []]"

definition examplePage :: page where
  "examplePage = \<lparr>p_count = 3, p_next = Some ''https://gutendex.com/books?page=2'',
     p_previous = None, p_results = exampleResults\<rparr>"

definition exampleNet :: network where
  "exampleNet url = Body examplePage"

text \<open>States in which a page has been fetched: by browsing, and by a search for \<^verbatim>\<open>verne\<close>.\<close>

definition exampleBrowsing :: qstate where
  "exampleBrowsing = init_v2\<lparr>nextPageUrl := Some ''https://gutendex.com/books?page=3'',
     prevPageUrl := Some ''https://gutendex.com/books?page=1'', currentPage := 2\<rparr>"

definition exampleSearching :: qstate where
  "exampleSearching = exampleBrowsing\<lparr>searchTerm := ''verne''\<rparr>"

text \<open>Records without authors, with one, with two, and with an author whose years are unknown.\<close>

definition exampleNoAuthors :: book where
  "exampleNoAuthors = exampleBook 4 ''Anonymous'' 1 []"

definition exampleOneAuthor :: book where
  "exampleOneAuthor = exampleBook 5 ''Solo'' 1 [exampleAuthor ''A'' (Some 1800) (Some 1850)]"

definition exampleTwoAuthors :: book where
  "exampleTwoAuthors = exampleBook 6 ''Joint'' 1
     [exampleAuthor ''Younger'' (Some 1800) (Some 1850), exampleAuthor ''Elder'' (Some 1700) (Some 1900)]"

definition exampleNoYears :: book where
  "exampleNoYears = exampleBook 7 ''Undated'' 1 [exampleAuthor ''Unknown'' None None]"

text \<open>
  A page of three records with authors, a session that browses, sorts and filters it, and
  the state in which that session ends in variant 2.
\<close>

definition exampleShelf :: "book list" where
  "exampleShelf = [exampleOneAuthor, exampleNoYears, exampleTwoAuthors]"

definition exampleShelfNet :: network where
  "exampleShelfNet url = Body \<lparr>p_count = 3, p_next = None, p_previous = None, p_results = exampleShelf\<rparr>"

definition exampleSession :: "action list" where
  "exampleSession = [ShowAllBooks exampleShelfNet, SetSortOrder ''alphabetical'',
     SetFilterType ''author_year'', SetFilterValue ''1825'']"

definition exampleSettled :: qstate where
  "exampleSettled = \<lparr>searchTerm = [], results = exampleShelf,
     filteredResults = [exampleTwoAuthors, exampleOneAuthor],
     sortedResults = [exampleTwoAuthors, exampleOneAuthor, exampleNoYears],
     sortOrder = ''alphabetical'', filterType = ''author_year'', filterValue = ''1825'',
     selectedSearchType = ''default'', nextPageUrl = None, prevPageUrl = None,
     currentPage = 1, isAuthorYearFilter = False,
     requests = [''https://gutendex.com/books?sort=descending_popular&page=1'']\<rparr>"











section \<open>Insertion into a sorted list and the stable sort\<close>


lemma mset_insert_sorted: "mset (insert_sorted le x xs) = add_mset x (mset xs)"
  by (induction xs) simp_all

lemma set_insert_sorted: "set (insert_sorted le x xs) = insert x (set xs)"
  by (induction xs) auto

lemma mset_sort_by: "mset (sort_by le xs) = mset xs"
  by (induction xs) (simp_all add: sort_by_def mset_insert_sorted)

lemma set_sort_by: "set (sort_by le xs) = set xs"
  by (metis mset_sort_by set_mset_mset)

lemma sort_by_Cons: "sort_by le (x # xs) = insert_sorted le x (sort_by le xs)"
  by (simp add: sort_by_def)

lemma sort_by_Nil: "sort_by le [] = []"
  by (simp add: sort_by_def)

lemma sorted_insert_sorted:
  assumes "consistent_on A le" "x \<in> A" "set xs \<subseteq> A" "sorted_wrt le xs"
  shows "sorted_wrt le (insert_sorted le x xs)"
  using assms(3,4)
proof (induction xs)
  case Nil
  show ?case by simp
next
  case (Cons y ys)
  have tot: "le x y \<or> le y x" and inA: "y \<in> A" "set ys \<subseteq> A"
    using assms(1,2) Cons.prems(1) by (auto simp: consistent_on_def)
  show ?case
  proof (cases "le x y")
    case True
    have "\<forall>z\<in>set ys. le x z"
    proof
      fix z assume z: "z \<in> set ys"
      then have "le y z" using Cons.prems(2) by simp
      moreover have "z \<in> A" using z inA by blast
      ultimately show "le x z"
        using assms(1,2) inA(1) True unfolding consistent_on_def by blast
    qed
    with True Cons.prems(2) show ?thesis by simp
  next
    case False
    then have "le y x" using tot by blast
    moreover have "sorted_wrt le (insert_sorted le x ys)"
      using Cons.IH inA(2) Cons.prems(2) by simp
    ultimately show ?thesis
      using False Cons.prems(2) by (auto simp: set_insert_sorted)
  qed
qed

lemma sorted_sort_by:
  "consistent_on A le \<Longrightarrow> set xs \<subseteq> A \<Longrightarrow> sorted_wrt le (sort_by le xs)"
proof (induction xs)
  case Nil
  show ?case by (simp add: sort_by_Nil)
next
  case (Cons x xs)
  then show ?case
    by (simp add: sort_by_Cons sorted_insert_sorted [where A = A] set_sort_by)
qed

lemma insert_sorted_front: "\<forall>y\<in>set xs. le x y \<Longrightarrow> insert_sorted le x xs = x # xs"
  by (cases xs) simp_all

lemma filter_insert_sorted_skip: "\<not> P x \<Longrightarrow> filter P (insert_sorted le x xs) = filter P xs"
  by (induction xs) simp_all

lemma filter_insert_sorted:
  assumes "consistent_on A le" "x \<in> A" "P x"
  shows "set xs \<subseteq> A \<Longrightarrow> sorted_wrt le xs \<Longrightarrow>
         filter P (insert_sorted le x xs) = insert_sorted le x (filter P xs)"
proof (induction xs)
  case Nil
  show ?case using assms(3) by simp
next
  case (Cons y ys)
  have inA: "y \<in> A" "set ys \<subseteq> A" using Cons.prems(1) by auto
  show ?case
  proof (cases "le x y")
    case True
    have "\<forall>z\<in>set (y # ys). le x z"
    proof
      fix z assume z: "z \<in> set (y # ys)"
      show "le x z"
      proof (cases "z = y")
        case True
        with \<open>le x y\<close> show ?thesis by simp
      next
        case False
        with z have zs: "z \<in> set ys" by simp
        then have "le y z" using Cons.prems(2) by simp
        moreover have "z \<in> A" using zs inA by blast
        ultimately show ?thesis
          using assms(1,2) inA(1) True unfolding consistent_on_def by blast
      qed
    qed
    then have "\<forall>z\<in>set (filter P (y # ys)). le x z" by simp
    then have "insert_sorted le x (filter P (y # ys)) = x # filter P (y # ys)"
      by (rule insert_sorted_front)
    with True assms(3) show ?thesis by simp
  next
    case False
    have "filter P (insert_sorted le x ys) = insert_sorted le x (filter P ys)"
      using Cons.IH inA(2) Cons.prems(2) by simp
    with False show ?thesis by simp
  qed
qed


lemma sort_by_stable:
  assumes "consistent_on A le" "a \<in> A"
  shows "set xs \<subseteq> A \<Longrightarrow>
         filter (\<lambda>y. le a y \<and> le y a) (sort_by le xs) = filter (\<lambda>y. le a y \<and> le y a) xs"
proof (induction xs)
  case Nil
  show ?case by (simp add: sort_by_Nil)
next
  case (Cons x xs)
  let ?E = "\<lambda>y. le a y \<and> le y a"
  have inA: "x \<in> A" "set xs \<subseteq> A" using Cons.prems by auto
  have IH: "filter ?E (sort_by le xs) = filter ?E xs" using Cons.IH inA by simp
  show ?case
  proof (cases "?E x")
    case False
    then show ?thesis
      using IH by (simp add: sort_by_Cons filter_insert_sorted_skip)
  next
    case True
    have srt: "sorted_wrt le (sort_by le xs)"
      using assms(1) inA(2) by (rule sorted_sort_by)
    have "filter ?E (insert_sorted le x (sort_by le xs))
            = insert_sorted le x (filter ?E (sort_by le xs))"
      using assms(1) inA(1) True _ srt
      by (rule filter_insert_sorted) (simp add: set_sort_by inA(2))
    also have "\<dots> = insert_sorted le x (filter ?E xs)" by (simp only: IH)
    also have "\<dots> = x # filter ?E xs"
    proof (rule insert_sorted_front)
      show "\<forall>y\<in>set (filter ?E xs). le x y"
      proof
        fix y assume "y \<in> set (filter ?E xs)"
        then have y: "y \<in> A" "le a y" using inA(2) by auto
        from True have "le x a" by simp
        with y show "le x y"
          using assms inA(1) unfolding consistent_on_def by blast
      qed
    qed
    finally show ?thesis using True by (simp add: sort_by_Cons)
  qed
qed

section \<open>Sorting\<close>

lemma cmp_le_ascending_popular:
  "cmp_le cmp_ascending_popular a b = (download_count a \<le> download_count b)"
  by (simp add: cmp_le_def cmp_ascending_popular_def num_of_int_def)

lemma cmp_le_descending_popular:
  "cmp_le cmp_descending_popular a b = (download_count b \<le> download_count a)"
  by (simp add: cmp_le_def cmp_descending_popular_def num_of_int_def)

lemma cmp_le_localeCompare:
  "cmp a b = localeCompare ck x y \<Longrightarrow> cmp_le cmp a b = (ck x \<le> ck y)"
  by (auto simp: cmp_le_def localeCompare_def)

lemma cmp_le_alphabetical:
  "cmp_le (cmp_alphabetical ck) a b = (ck (title a) \<le> ck (title b))"
  by (rule cmp_le_localeCompare) (simp add: cmp_alphabetical_def)

lemma cmp_le_reverse_alphabetical:
  "cmp_le (cmp_reverse_alphabetical ck) a b = (ck (title b) \<le> ck (title a))"
  by (rule cmp_le_localeCompare) (simp add: cmp_reverse_alphabetical_def)

lemma precedes_ascending: "precedes ck ''ascending_popular'' = cmp_le cmp_ascending_popular"
  by (intro ext) (simp add: cmp_le_ascending_popular precedes_def)

lemma precedes_descending: "precedes ck ''descending_popular'' = cmp_le cmp_descending_popular"
  by (intro ext) (simp add: cmp_le_descending_popular precedes_def)

lemma precedes_alphabetical: "precedes ck ''alphabetical'' = cmp_le (cmp_alphabetical ck)"
  by (intro ext) (simp add: cmp_le_alphabetical precedes_def)

lemma precedes_reverse_alphabetical:
  "precedes ck ''reverse_alphabetical'' = cmp_le (cmp_reverse_alphabetical ck)"
  by (intro ext) (simp add: cmp_le_reverse_alphabetical precedes_def)

lemma supported_cases:
  "so \<in> set supportedSortOrders \<Longrightarrow>
   so = ''ascending_popular'' \<or> so = ''descending_popular''
   \<or> so = ''alphabetical'' \<or> so = ''reverse_alphabetical''"
  by (simp add: supportedSortOrders_def)

lemma sortBooks_ascending:
  "sortBooks ck books ''ascending_popular'' = sort_by (precedes ck ''ascending_popular'') books"
  by (simp add: sortBooks_def Array_sort_def precedes_ascending)

lemma sortBooks_descending:
  "sortBooks ck books ''descending_popular'' = sort_by (precedes ck ''descending_popular'') books"
  by (simp add: sortBooks_def Array_sort_def precedes_descending)

lemma sortBooks_alphabetical:
  "sortBooks ck books ''alphabetical'' = sort_by (precedes ck ''alphabetical'') books"
  by (simp add: sortBooks_def Array_sort_def precedes_alphabetical)

lemma sortBooks_reverse_alphabetical:
  "sortBooks ck books ''reverse_alphabetical''
     = sort_by (precedes ck ''reverse_alphabetical'') books"
  by (simp add: sortBooks_def Array_sort_def precedes_reverse_alphabetical)

lemma sortBooks_sort_by:
  assumes "so \<in> set supportedSortOrders"
  shows "sortBooks ck books so = sort_by (precedes ck so) books"
  using supported_cases [OF assms]
proof (elim disjE)
  assume so: "so = ''ascending_popular''"
  show ?thesis unfolding so by (rule sortBooks_ascending)
next
  assume so: "so = ''descending_popular''"
  show ?thesis unfolding so by (rule sortBooks_descending)
next
  assume so: "so = ''alphabetical''"
  show ?thesis unfolding so by (rule sortBooks_alphabetical)
next
  assume so: "so = ''reverse_alphabetical''"
  show ?thesis unfolding so by (rule sortBooks_reverse_alphabetical)
qed

lemma cmp_ties_eq: "cmp_ties cmp a = (\<lambda>y. cmp_le cmp a y \<and> cmp_le cmp y a)"
  by (intro ext) (simp add: cmp_ties_def)

lemma ties_eq: "ties ck so a = (\<lambda>y. precedes ck so a y \<and> precedes ck so y a)"
  by (intro ext) (simp add: ties_def)

lemma consistent_key: "consistent_on A (\<lambda>a b. (f a :: 'k::linorder) \<le> f b)"
  unfolding consistent_on_def by auto

lemma consistent_key_rev: "consistent_on A (\<lambda>a b. (f b :: 'k::linorder) \<le> f a)"
  unfolding consistent_on_def by auto

lemma consistent_trivial: "consistent_on A (\<lambda>a b. True)"
  unfolding consistent_on_def by simp

lemma consistent_precedes: "consistent_on UNIV (precedes ck so)"
proof (cases "so \<in> set supportedSortOrders")
  case True
  from supported_cases [OF this] show ?thesis
  proof (elim disjE)
    assume so: "so = ''ascending_popular''"
    have "precedes ck so = (\<lambda>a b. download_count a \<le> download_count b)"
      unfolding so by (intro ext) (simp add: precedes_def)
    then show ?thesis by (simp only: consistent_key)
  next
    assume so: "so = ''descending_popular''"
    have "precedes ck so = (\<lambda>a b. download_count b \<le> download_count a)"
      unfolding so by (intro ext) (simp add: precedes_def)
    then show ?thesis by (simp only: consistent_key_rev)
  next
    assume so: "so = ''alphabetical''"
    have "precedes ck so = (\<lambda>a b. ck (title a) \<le> ck (title b))"
      unfolding so by (intro ext) (simp add: precedes_def)
    then show ?thesis by (simp only: consistent_key)
  next
    assume so: "so = ''reverse_alphabetical''"
    have "precedes ck so = (\<lambda>a b. ck (title b) \<le> ck (title a))"
      unfolding so by (intro ext) (simp add: precedes_def)
    then show ?thesis by (simp only: consistent_key_rev)
  qed
next
  case False
  then have "precedes ck so = (\<lambda>a b. True)"
    by (intro ext) (simp add: precedes_def supportedSortOrders_def)
  then show ?thesis by (simp only: consistent_trivial)
qed

lemma sortBooks_unsupported:
  "so \<notin> set supportedSortOrders \<Longrightarrow> sortBooks ck books so = books"
  by (simp add: sortBooks_def supportedSortOrders_def)

lemma sortBooks_Nil: "sortBooks ck [] so = []"
  by (simp add: sortBooks_def Array_sort_def sort_by_Nil)

lemma mset_sortBooks: "mset (sortBooks ck books so) = mset books"
  by (cases "so \<in> set supportedSortOrders")
     (simp_all add: sortBooks_sort_by sortBooks_unsupported mset_sort_by)

lemma slice_then_sort:
  "(case Array_slice h books of (h1, c) \<Rightarrow> Array_sort_inplace cmp h1 c)
     = (h @ [Array_sort cmp (h ! books)], length h)"
  by (simp add: Array_slice_def Array_sort_inplace_def)

lemma sortBooks_heap_supported:
  assumes "so \<in> set supportedSortOrders"
  shows "sortBooks_heap ck h books so = (h @ [sortBooks ck (h ! books) so], length h)"
  using supported_cases [OF assms]
proof (elim disjE)
  assume so: "so = ''ascending_popular''"
  show ?thesis unfolding so by (simp add: sortBooks_heap_def sortBooks_def slice_then_sort)
next
  assume so: "so = ''descending_popular''"
  show ?thesis unfolding so by (simp add: sortBooks_heap_def sortBooks_def slice_then_sort)
next
  assume so: "so = ''alphabetical''"
  show ?thesis unfolding so by (simp add: sortBooks_heap_def sortBooks_def slice_then_sort)
next
  assume so: "so = ''reverse_alphabetical''"
  show ?thesis unfolding so by (simp add: sortBooks_heap_def sortBooks_def slice_then_sort)
qed

lemma cmp_le_cmp_v1:
  assumes "st \<noteq> ''chronological''"
  shows "cmp_le (cmp_v1 ck dv st) a b = precedes_v1 ck st a b"
proof (cases "st = ''alphabetical''")
  case True
  have "cmp_v1 ck dv ''alphabetical'' a b = localeCompare ck (title a) (title b)"
    by (simp add: cmp_v1_def)
  moreover have "precedes_v1 ck ''alphabetical'' a b = (ck (title a) \<le> ck (title b))"
    by (simp add: precedes_v1_def)
  ultimately show ?thesis unfolding True
    by (simp add: cmp_le_localeCompare [where ck = ck])
next
  case na: False
  show ?thesis
  proof (cases "st = ''reverse_alphabetical''")
    case True
    have "cmp_v1 ck dv ''reverse_alphabetical'' a b = localeCompare ck (title b) (title a)"
      by (simp add: cmp_v1_def)
    moreover have "precedes_v1 ck ''reverse_alphabetical'' a b = (ck (title b) \<le> ck (title a))"
      by (simp add: precedes_v1_def)
    ultimately show ?thesis unfolding True
      by (simp add: cmp_le_localeCompare [where ck = ck])
  next
    case nr: False
    show ?thesis
    proof (cases "st = ''popularity''")
      case True
      have "cmp_v1 ck dv ''popularity'' a b
              = js_sub (num_of_int (download_count b)) (num_of_int (download_count a))"
        by (simp add: cmp_v1_def)
      moreover have "precedes_v1 ck ''popularity'' a b = (download_count b \<le> download_count a)"
        by (simp add: precedes_v1_def)
      ultimately show ?thesis unfolding True
        by (simp add: cmp_le_def num_of_int_def)
    next
      case np: False
      have "cmp_v1 ck dv st a b = Fin 0"
        using assms na nr np by (simp add: cmp_v1_def)
      moreover have "precedes_v1 ck st a b"
        using na nr np by (simp add: precedes_v1_def)
      ultimately show ?thesis
        by (simp add: cmp_le_def)
    qed
  qed
qed

lemma consistent_precedes_v1: "consistent_on UNIV (precedes_v1 ck st)"
proof (cases "st = ''alphabetical''")
  case True
  have "precedes_v1 ck st = (\<lambda>a b. ck (title a) \<le> ck (title b))"
    unfolding True by (intro ext) (simp add: precedes_v1_def)
  then show ?thesis by (simp only: consistent_key)
next
  case na: False
  show ?thesis
  proof (cases "st = ''reverse_alphabetical''")
    case True
    have "precedes_v1 ck st = (\<lambda>a b. ck (title b) \<le> ck (title a))"
      unfolding True by (intro ext) (simp add: precedes_v1_def)
    then show ?thesis by (simp only: consistent_key_rev)
  next
    case nr: False
    show ?thesis
    proof (cases "st = ''popularity''")
      case True
      have "precedes_v1 ck st = (\<lambda>a b. download_count b \<le> download_count a)"
        unfolding True by (intro ext) (simp add: precedes_v1_def)
      then show ?thesis by (simp only: consistent_key_rev)
    next
      case False
      with na nr have "precedes_v1 ck st = (\<lambda>a b. True)"
        by (intro ext) (simp add: precedes_v1_def)
      then show ?thesis by (simp only: consistent_trivial)
    qed
  qed
qed

lemma consistent_cmp_v1:
  assumes "st \<noteq> ''chronological''"
  shows "consistent_on UNIV (cmp_le (cmp_v1 ck dv st))"
proof -
  have "cmp_le (cmp_v1 ck dv st) = precedes_v1 ck st"
    by (intro ext) (rule cmp_le_cmp_v1 [OF assms])
  then show ?thesis by (simp add: consistent_precedes_v1)
qed

lemma sortBooks_v1_heap_copy:
  "st \<noteq> [] \<Longrightarrow>
   sortBooks_v1_heap ck dv h books st = (h @ [sortBooks_v1 ck dv (h ! books) st], length h)"
  by (simp add: sortBooks_v1_heap_def sortBooks_v1_def slice_then_sort)

text \<open>
  Claim C7. For each of the four supported sort orders, \<^verbatim>\<open>sortBooks\<close> returns a newly
  allocated array, leaves every array that existed before (the argument among them) as it
  was, and the new array is a permutation of the argument, ordered by the sort order, in
  which records that tie keep their order of the argument. The same holds for
  \<^verbatim>\<open>sortBooks\<close> of variant 1 with the order its comparator gives to that sort type.
\<close>

theorem sortBooks_new_unmodified_stable:
  assumes "so \<in> set supportedSortOrders" and "books < length h"
  shows "(case sortBooks_heap ck h books so of
            (h', r) \<Rightarrow>
               r = length h \<and> r \<noteq> books \<and> length h' = Suc (length h)
             \<and> take (length h) h' = h \<and> h' ! books = h ! books
             \<and> h' ! r = sortBooks ck (h ! books) so
             \<and> mset (h' ! r) = mset (h ! books)
             \<and> sorted_wrt (precedes ck so) (h' ! r)
             \<and> (\<forall>a. filter (ties ck so a) (h' ! r) = filter (ties ck so a) (h ! books)))
       \<and> (case sortBooks_v1_heap ck dv h books so of
            (h', r) \<Rightarrow>
               r = length h \<and> r \<noteq> books \<and> length h' = Suc (length h)
             \<and> take (length h) h' = h \<and> h' ! books = h ! books
             \<and> h' ! r = sortBooks_v1 ck dv (h ! books) so
             \<and> mset (h' ! r) = mset (h ! books)
             \<and> (\<forall>a. filter (cmp_ties (cmp_v1 ck dv so) a) (h' ! r)
                     = filter (cmp_ties (cmp_v1 ck dv so) a) (h ! books)))"
proof -
  let ?xs = "h ! books"
  have so_ne: "so \<noteq> []" and so_nc: "so \<noteq> ''chronological''"
    using assms(1) by (auto simp: supportedSortOrders_def)
  have st: "\<forall>a. filter (ties ck so a) (sortBooks ck ?xs so) = filter (ties ck so a) ?xs"
    unfolding ties_eq sortBooks_sort_by [OF assms(1)]
    using sort_by_stable [OF consistent_precedes, of _ ?xs ck so] by simp
  have srt: "sorted_wrt (precedes ck so) (sortBooks ck ?xs so)"
    unfolding sortBooks_sort_by [OF assms(1)]
    using sorted_sort_by [OF consistent_precedes, of ?xs ck so] by simp
  have st1: "\<forall>a. filter (cmp_ties (cmp_v1 ck dv so) a) (sortBooks_v1 ck dv ?xs so)
                 = filter (cmp_ties (cmp_v1 ck dv so) a) ?xs"
    using so_ne sort_by_stable [OF consistent_cmp_v1 [OF so_nc], of _ ?xs ck dv]
    by (simp add: cmp_ties_eq sortBooks_v1_def Array_sort_def)
  have ms1: "mset (sortBooks_v1 ck dv ?xs so) = mset ?xs"
    by (simp add: sortBooks_v1_def Array_sort_def mset_sort_by)
  show ?thesis
    using assms(2) st srt st1 ms1
    by (simp add: sortBooks_heap_supported [OF assms(1)] sortBooks_v1_heap_copy [OF so_ne]
          nth_append mset_sortBooks)
qed

text \<open>The witness evaluates the sort on three records, two of which tie.\<close>

theorem sortBooks_new_unmodified_stable_witness:
  "''descending_popular'' \<in> set supportedSortOrders
 \<and> (0::nat) < length [exampleResults]
 \<and> sortBooks byteOrder exampleResults ''descending_popular''
      = [exampleBook 2 ''A'' 9 [], exampleBook 1 ''B'' 5 [], exampleBook 3 ''C'' 5 []]
 \<and> ((case sortBooks_heap byteOrder [exampleResults] 0 ''descending_popular'' of
            (h', r) \<Rightarrow>
               r = length [exampleResults] \<and> r \<noteq> 0 \<and> length h' = Suc (length [exampleResults])
             \<and> take (length [exampleResults]) h' = [exampleResults]
             \<and> h' ! 0 = [exampleResults] ! 0
             \<and> h' ! r = sortBooks byteOrder ([exampleResults] ! 0) ''descending_popular''
             \<and> mset (h' ! r) = mset ([exampleResults] ! 0)
             \<and> sorted_wrt (precedes byteOrder ''descending_popular'') (h' ! r)
             \<and> (\<forall>a. filter (ties byteOrder ''descending_popular'' a) (h' ! r)
                     = filter (ties byteOrder ''descending_popular'' a) ([exampleResults] ! 0)))
       \<and> (case sortBooks_v1_heap byteOrder (\<lambda>d. None) [exampleResults] 0 ''descending_popular'' of
            (h', r) \<Rightarrow>
               r = length [exampleResults] \<and> r \<noteq> 0 \<and> length h' = Suc (length [exampleResults])
             \<and> take (length [exampleResults]) h' = [exampleResults]
             \<and> h' ! 0 = [exampleResults] ! 0
             \<and> h' ! r = sortBooks_v1 byteOrder (\<lambda>d. None) ([exampleResults] ! 0) ''descending_popular''
             \<and> mset (h' ! r) = mset ([exampleResults] ! 0)
             \<and> (\<forall>a. filter (cmp_ties (cmp_v1 byteOrder (\<lambda>d. None) ''descending_popular'') a) (h' ! r)
                     = filter (cmp_ties (cmp_v1 byteOrder (\<lambda>d. None) ''descending_popular'') a)
                         ([exampleResults] ! 0))))"
proof -
  have a: "''descending_popular'' \<in> set supportedSortOrders"
    by (simp add: supportedSortOrders_def)
  have b: "(0::nat) < length [exampleResults]" by simp
  have v: "sortBooks byteOrder exampleResults ''descending_popular''
             = [exampleBook 2 ''A'' 9 [], exampleBook 1 ''B'' 5 [], exampleBook 3 ''C'' 5 []]"
    by (simp add: sortBooks_def Array_sort_def sort_by_def cmp_le_def cmp_descending_popular_def
          num_of_int_def exampleBook_def exampleResults_def)
  note c = sortBooks_new_unmodified_stable [OF a b, of byteOrder "\<lambda>d. None"]
  from a b v c [THEN conjunct1] c [THEN conjunct2]
  show ?thesis by (intro conjI)
qed

section \<open>CatalogClient: failures, validation and request URLs\<close>

lemma fetchPage_failed: "failed (net url) \<Longrightarrow> fetchPage net url = ([url], emptyPage)"
  by (cases "net url") (simp_all add: failed_def fetchPage_def)

text \<open>
  Claim C4, as amended. When the fetch fails (transport or decoding), \<^verbatim>\<open>getBookList\<close> and,
  for a valid search type, \<^verbatim>\<open>searchBooks\<close> of variants 2 and 3 deliver the page
  \<^verbatim>\<open>{count: 0, next: null, previous: null, results: []}\<close>; the two operations of variant 1
  deliver the empty array. None of them delivers an error.
\<close>

theorem failure_gives_empty_result:
  "(failed (net (bookListUrl so pg)) \<longrightarrow> getBookList net so pg = ([bookListUrl so pg], emptyPage))
 \<and> (st \<in> set validSearchTypes \<and> failed (net (searchUrl q st so pg))
      \<longrightarrow> searchBooks net q st so pg = ([searchUrl q st so pg], Inr emptyPage))
 \<and> (failed (net (API_BASE_URL_v1 @ ''/books?sort='' @ so))
      \<longrightarrow> snd (getBookList_v1 net so) = [])
 \<and> (st \<in> set validSearchTypes_v1
      \<and> failed (net (API_BASE_URL_v1 @ ''/books?search='' @ encodeURIComponent q @ ''&sort='' @ so))
      \<longrightarrow> snd (searchBooks_v1 net q st so) = Inr [])"
proof (intro conjI impI)
  assume "failed (net (bookListUrl so pg))"
  then show "getBookList net so pg = ([bookListUrl so pg], emptyPage)"
    by (simp add: getBookList_def fetchPage_failed)
next
  assume "st \<in> set validSearchTypes \<and> failed (net (searchUrl q st so pg))"
  then show "searchBooks net q st so pg = ([searchUrl q st so pg], Inr emptyPage)"
    by (simp add: searchBooks_def fetchPage_failed)
next
  assume "failed (net (API_BASE_URL_v1 @ ''/books?sort='' @ so))"
  then show "snd (getBookList_v1 net so) = []"
    by (cases "net (API_BASE_URL_v1 @ ''/books?sort='' @ so)")
       (simp_all add: getBookList_v1_def failed_def)
next
  let ?u = "API_BASE_URL_v1 @ ''/books?search='' @ encodeURIComponent q @ ''&sort='' @ so"
  assume "st \<in> set validSearchTypes_v1 \<and> failed (net ?u)"
  then show "snd (searchBooks_v1 net q st so) = Inr []"
    by (cases "net ?u") (simp_all add: searchBooks_v1_def failed_def)
qed

theorem failure_gives_empty_result_witness:
  "getBookList (\<lambda>u. TransportFailure) ''popular'' 1 = ([bookListUrl ''popular'' 1], emptyPage)
 \<and> searchBooks (\<lambda>u. DecodeFailure) ''x'' ''topic'' ''popular'' 1
      = ([searchUrl ''x'' ''topic'' ''popular'' 1], Inr emptyPage)
 \<and> snd (getBookList_v1 (\<lambda>u. TransportFailure) ''popular'') = []
 \<and> snd (searchBooks_v1 (\<lambda>u. DecodeFailure) ''x'' ''title'' ''popular'') = Inr []"
  using failure_gives_empty_result [of "\<lambda>u. TransportFailure" "''popular''" 1 "''topic''" "''x''"]
        failure_gives_empty_result [of "\<lambda>u. DecodeFailure" "''popular''" 1 "''topic''" "''x''"]
        failure_gives_empty_result [of "\<lambda>u. DecodeFailure" "''popular''" 1 "''title''" "''x''"]
  by (simp add: failed_def validSearchTypes_def validSearchTypes_v1_def)

text \<open>
  Claim C4 as stated fails in variant 1: on a transport failure its \<^verbatim>\<open>getBookList\<close>
  delivers the array \<^verbatim>\<open>[]\<close>, which is not the page object.
\<close>

theorem listAll_v1_failure_counterexample:
  "ArrayValue (snd (getBookList_v1 (\<lambda>u. TransportFailure) ''popular'')) = ArrayValue []
 \<and> ArrayValue (snd (getBookList_v1 (\<lambda>u. TransportFailure) ''popular'')) \<noteq> PageValue emptyPage"
  by (simp add: getBookList_v1_def)

text \<open>
  Claim C5. A search type outside the variant's list of valid search types makes
  \<^verbatim>\<open>searchBooks\<close> reject with \<^verbatim>\<open>'Invalid search type.'\<close> and fetch nothing; a search type of
  the list is not rejected and exactly one URL is fetched; \<^verbatim>\<open>topic\<close> is in both lists.
\<close>

theorem invalid_searchType_rejected:
  "(st \<notin> set validSearchTypes
      \<longrightarrow> searchBooks net q st so pg = ([], Inl (Rejected ''Invalid search type.'')))
 \<and> (st \<notin> set validSearchTypes_v1
      \<longrightarrow> searchBooks_v1 net q st so = ([], Inl (Rejected ''Invalid search type.'')))
 \<and> (st \<in> set validSearchTypes
      \<longrightarrow> (\<exists>data. searchBooks net q st so pg = ([searchUrl q st so pg], Inr data)))
 \<and> (st \<in> set validSearchTypes_v1
      \<longrightarrow> (\<exists>data. snd (searchBooks_v1 net q st so) = Inr data)
          \<and> length (fst (searchBooks_v1 net q st so)) = 1)
 \<and> ''topic'' \<in> set validSearchTypes \<and> ''topic'' \<in> set validSearchTypes_v1"
  by (simp add: searchBooks_def searchBooks_v1_def fetchPage_def validSearchTypes_def
        validSearchTypes_v1_def Let_def)

theorem invalid_searchType_rejected_witness:
  "''bogus'' \<notin> set validSearchTypes \<and> ''bogus'' \<notin> set validSearchTypes_v1
 \<and> searchBooks exampleNet ''x'' ''bogus'' ''popular'' 1
     = ([], Inl (Rejected ''Invalid search type.''))
 \<and> searchBooks_v1 exampleNet ''x'' ''bogus'' ''popular''
     = ([], Inl (Rejected ''Invalid search type.''))
 \<and> (\<exists>data. searchBooks exampleNet ''x'' ''topic'' ''popular'' 1
     = ([searchUrl ''x'' ''topic'' ''popular'' 1], Inr data))
 \<and> (\<exists>data. snd (searchBooks_v1 exampleNet ''x'' ''topic'' ''popular'') = Inr data)"
  using invalid_searchType_rejected [of "''bogus''" exampleNet "''x''" "''popular''" 1]
        invalid_searchType_rejected [of "''topic''" exampleNet "''x''" "''popular''" 1]
  by (simp add: validSearchTypes_def validSearchTypes_v1_def)

text \<open>
  The request URL of variants 2 and 3: the parameter is \<^verbatim>\<open>topic\<close> for the search type
  \<^verbatim>\<open>topic\<close> and \<^verbatim>\<open>search\<close> otherwise, and its value is the percent-encoded query.
\<close>

lemma searchBooks_query_parameter:
  "st \<in> set validSearchTypes \<Longrightarrow>
   fst (searchBooks net q st so pg) =
     [API_BASE_URL @ ''/books?'' @ (if st = ''topic'' then ''topic'' else ''search'') @ ''=''
        @ encodeURIComponent q @ ''&sort='' @ so @ ''&page='' @ String_of_int pg]"
  by (simp add: searchBooks_def fetchPage_def searchUrl_def)

text \<open>
  Claim C6 at the search type \<^verbatim>\<open>topic\<close>, which variant 1 accepts: variant 1 names the
  parameter \<^verbatim>\<open>search\<close>, where variants 2 and 3 name it \<^verbatim>\<open>topic\<close>.
\<close>

theorem searchBooks_v1_topic_uses_search:
  "''topic'' \<in> set validSearchTypes_v1
 \<and> fst (searchBooks_v1 exampleNet ''science fiction'' ''topic'' ''popular'')
     = [''https://www.gutendex.com/books?search=science%20fiction&sort=popular'']
 \<and> fst (searchBooks exampleNet ''science fiction'' ''topic'' ''popular'' 1)
     = [''https://gutendex.com/books?topic=science%20fiction&sort=popular&page=1'']"
  by (simp add: searchBooks_v1_def validSearchTypes_v1_def API_BASE_URL_v1_def Let_def
        searchBooks_def validSearchTypes_def fetchPage_def searchUrl_def API_BASE_URL_def
        String_of_int_def digit_char_def
        encodeURIComponent_def uri_unreserved_def percent_byte_def hex_digit_def)

section \<open>The filter without a filter\<close>

text \<open>
  Claim C8. With an empty \<^verbatim>\<open>filterType\<close> or an empty \<^verbatim>\<open>filterValue\<close>, \<^verbatim>\<open>filterBooks\<close> of
  each variant returns its input, whatever the other argument is; applied to the output
  of \<^verbatim>\<open>sortBooks\<close> it returns that output.
\<close>

theorem filterBooks_identity:
  "filterBooks_v1 books [] fv = books \<and> filterBooks_v1 books ft [] = books
 \<and> filterBooks_v2 tn books [] fv = Inr books \<and> filterBooks_v2 tn books ft [] = Inr books
 \<and> filterBooks_v3 tn books [] fv = books \<and> filterBooks_v3 tn books ft [] = books
 \<and> filterBooks_v3 tn (sortBooks ck books so) [] fv = sortBooks ck books so
 \<and> filterBooks_v3 tn (sortBooks ck books so) ft [] = sortBooks ck books so
 \<and> filterBooks_v2 tn (sortBooks ck books so) [] fv = Inr (sortBooks ck books so)
 \<and> filterBooks_v2 tn (sortBooks ck books so) ft [] = Inr (sortBooks ck books so)
 \<and> filterBooks_v1 (sortBooks_v1 ck dv books so) [] fv = sortBooks_v1 ck dv books so
 \<and> filterBooks_v1 (sortBooks_v1 ck dv books so) ft [] = sortBooks_v1 ck dv books so"
  by (simp add: filterBooks_v1_def filterBooks_v2_def filterBooks_v3_def)

theorem filterBooks_identity_witness:
  "filterBooks_v1 exampleResults [] ''en'' = exampleResults
 \<and> filterBooks_v1 exampleResults ''language'' [] = exampleResults
 \<and> filterBooks_v2 decimalToNumber exampleResults [] ''en'' = Inr exampleResults
 \<and> filterBooks_v2 decimalToNumber exampleResults ''language'' [] = Inr exampleResults
 \<and> filterBooks_v3 decimalToNumber exampleResults [] ''en'' = exampleResults
 \<and> filterBooks_v3 decimalToNumber exampleResults ''language'' [] = exampleResults
 \<and> filterBooks_v3 decimalToNumber (sortBooks byteOrder exampleResults ''alphabetical'') [] ''en''
      = sortBooks byteOrder exampleResults ''alphabetical''
 \<and> filterBooks_v3 decimalToNumber (sortBooks byteOrder exampleResults ''alphabetical'') ''language'' []
      = sortBooks byteOrder exampleResults ''alphabetical''
 \<and> filterBooks_v2 decimalToNumber (sortBooks byteOrder exampleResults ''alphabetical'') [] ''en''
      = Inr (sortBooks byteOrder exampleResults ''alphabetical'')
 \<and> filterBooks_v2 decimalToNumber (sortBooks byteOrder exampleResults ''alphabetical'') ''language'' []
      = Inr (sortBooks byteOrder exampleResults ''alphabetical'')
 \<and> filterBooks_v1 (sortBooks_v1 byteOrder (\<lambda>d. None) exampleResults ''alphabetical'') [] ''en''
      = sortBooks_v1 byteOrder (\<lambda>d. None) exampleResults ''alphabetical''
 \<and> filterBooks_v1 (sortBooks_v1 byteOrder (\<lambda>d. None) exampleResults ''alphabetical'') ''language'' []
      = sortBooks_v1 byteOrder (\<lambda>d. None) exampleResults ''alphabetical''"
  by (rule filterBooks_identity)

section \<open>Pagination\<close>

lemma handleShowAllBooks_request:
  "requests (handleShowAllBooks net pg s) = requests s @ [bookListUrl (sortOrder s) pg]
 \<and> currentPage (handleShowAllBooks net pg s) = pg"
  by (simp add: handleShowAllBooks_def getBookList_def fetchPage_def)

lemma handleSearch_request:
  "selectedSearchType s \<in> set validSearchTypes \<Longrightarrow>
   requests (handleSearch net pg s)
     = requests s @ [searchUrl (searchTerm s) (selectedSearchType s) (sortOrder s) pg]
 \<and> currentPage (handleSearch net pg s) = pg"
  by (simp add: handleSearch_def searchBooks_def fetchPage_def)

text \<open>
  Claim C9. With \<^verbatim>\<open>nextPageUrl\<close> absent \<^verbatim>\<open>handleNextPage\<close> returns the state as it is, no
  request added; likewise \<^verbatim>\<open>handlePreviousPage\<close> with \<^verbatim>\<open>prevPageUrl\<close> absent. With the cursor
  present the handler is \<^verbatim>\<open>handleShowAllBooks\<close> when \<^verbatim>\<open>searchTerm\<close> is empty and
  \<^verbatim>\<open>handleSearch\<close> otherwise, called with \<^verbatim>\<open>currentPage\<close> plus or minus one: one request
  for that page is added and \<^verbatim>\<open>currentPage\<close> becomes that page (for the search, when the
  selected search type is valid).
\<close>

theorem pagination_guarded:
  "(nextPageUrl s = None \<longrightarrow> handleNextPage net s = s)
 \<and> (prevPageUrl s = None \<longrightarrow> handlePreviousPage net s = s)
 \<and> (truthy (nextPageUrl s) \<and> searchTerm s = [] \<longrightarrow>
      handleNextPage net s = handleShowAllBooks net (currentPage s + 1) s
    \<and> requests (handleNextPage net s) = requests s @ [bookListUrl (sortOrder s) (currentPage s + 1)]
    \<and> currentPage (handleNextPage net s) = currentPage s + 1)
 \<and> (truthy (nextPageUrl s) \<and> searchTerm s \<noteq> [] \<longrightarrow>
      handleNextPage net s = handleSearch net (currentPage s + 1) s
    \<and> (selectedSearchType s \<in> set validSearchTypes \<longrightarrow>
        requests (handleNextPage net s)
          = requests s @ [searchUrl (searchTerm s) (selectedSearchType s) (sortOrder s) (currentPage s + 1)]
      \<and> currentPage (handleNextPage net s) = currentPage s + 1))
 \<and> (truthy (prevPageUrl s) \<and> searchTerm s = [] \<longrightarrow>
      handlePreviousPage net s = handleShowAllBooks net (currentPage s - 1) s
    \<and> requests (handlePreviousPage net s) = requests s @ [bookListUrl (sortOrder s) (currentPage s - 1)]
    \<and> currentPage (handlePreviousPage net s) = currentPage s - 1)
 \<and> (truthy (prevPageUrl s) \<and> searchTerm s \<noteq> [] \<longrightarrow>
      handlePreviousPage net s = handleSearch net (currentPage s - 1) s
    \<and> (selectedSearchType s \<in> set validSearchTypes \<longrightarrow>
        requests (handlePreviousPage net s)
          = requests s @ [searchUrl (searchTerm s) (selectedSearchType s) (sortOrder s) (currentPage s - 1)]
      \<and> currentPage (handlePreviousPage net s) = currentPage s - 1))"
  by (simp add: handleNextPage_def handlePreviousPage_def truthy_def handleShowAllBooks_request
        handleSearch_request)

theorem pagination_guarded_witness:
  "handleNextPage exampleNet init_v2 = init_v2
 \<and> handlePreviousPage exampleNet init_v2 = init_v2
 \<and> requests (handleNextPage exampleNet exampleBrowsing)
      = [''https://gutendex.com/books?sort=descending_popular&page=3'']
 \<and> currentPage (handleNextPage exampleNet exampleBrowsing) = 3
 \<and> requests (handlePreviousPage exampleNet exampleBrowsing)
      = [''https://gutendex.com/books?sort=descending_popular&page=1'']
 \<and> currentPage (handlePreviousPage exampleNet exampleBrowsing) = 1
 \<and> requests (handleNextPage exampleNet exampleSearching)
      = [''https://gutendex.com/books?search=verne&sort=descending_popular&page=3'']
 \<and> currentPage (handleNextPage exampleNet exampleSearching) = 3
 \<and> requests (handlePreviousPage exampleNet exampleSearching)
      = [''https://gutendex.com/books?search=verne&sort=descending_popular&page=1'']
 \<and> currentPage (handlePreviousPage exampleNet exampleSearching) = 1"
proof -
  note ev = init_v2_def exampleBrowsing_def exampleSearching_def truthy_def
    validSearchTypes_def bookListUrl_def searchUrl_def API_BASE_URL_def String_of_int_def
    digit_char_def encodeURIComponent_def uri_unreserved_def
  note i = pagination_guarded [of init_v2 exampleNet]
  note b = pagination_guarded [of exampleBrowsing exampleNet]
  note s = pagination_guarded [of exampleSearching exampleNet]
  have i0: "nextPageUrl init_v2 = None" "prevPageUrl init_v2 = None"
    by (simp_all add: ev)
  have b0: "truthy (nextPageUrl exampleBrowsing) \<and> searchTerm exampleBrowsing = []"
           "truthy (prevPageUrl exampleBrowsing) \<and> searchTerm exampleBrowsing = []"
    by (simp_all add: ev)
  have s0: "truthy (nextPageUrl exampleSearching) \<and> searchTerm exampleSearching \<noteq> []"
           "truthy (prevPageUrl exampleSearching) \<and> searchTerm exampleSearching \<noteq> []"
           "selectedSearchType exampleSearching \<in> set validSearchTypes"
    by (simp_all add: ev)
  note i1 = i [THEN conjunct1, THEN mp, OF i0(1)]
  note i2 = i [THEN conjunct2, THEN conjunct1, THEN mp, OF i0(2)]
  note bn = b [THEN conjunct2, THEN conjunct2, THEN conjunct1, THEN mp, OF b0(1), THEN conjunct2]
  note bp = b [THEN conjunct2, THEN conjunct2, THEN conjunct2, THEN conjunct2, THEN conjunct1,
    THEN mp, OF b0(2), THEN conjunct2]
  note sn = s [THEN conjunct2, THEN conjunct2, THEN conjunct2, THEN conjunct1, THEN mp, OF s0(1),
    THEN conjunct2, THEN mp, OF s0(3)]
  note sp = s [THEN conjunct2, THEN conjunct2, THEN conjunct2, THEN conjunct2, THEN conjunct2,
    THEN mp, OF s0(2), THEN conjunct2, THEN mp, OF s0(3)]
  have v: "requests exampleBrowsing @ [bookListUrl (sortOrder exampleBrowsing) (currentPage exampleBrowsing + 1)]
             = [''https://gutendex.com/books?sort=descending_popular&page=3'']"
          "currentPage exampleBrowsing + 1 = 3"
          "requests exampleBrowsing @ [bookListUrl (sortOrder exampleBrowsing) (currentPage exampleBrowsing - 1)]
             = [''https://gutendex.com/books?sort=descending_popular&page=1'']"
          "currentPage exampleBrowsing - 1 = 1"
          "requests exampleSearching @ [searchUrl (searchTerm exampleSearching)
                  (selectedSearchType exampleSearching) (sortOrder exampleSearching)
                  (currentPage exampleSearching + 1)]
             = [''https://gutendex.com/books?search=verne&sort=descending_popular&page=3'']"
          "currentPage exampleSearching + 1 = 3"
          "requests exampleSearching @ [searchUrl (searchTerm exampleSearching)
                  (selectedSearchType exampleSearching) (sortOrder exampleSearching)
                  (currentPage exampleSearching - 1)]
             = [''https://gutendex.com/books?search=verne&sort=descending_popular&page=1'']"
          "currentPage exampleSearching - 1 = 1"
    by (simp_all add: ev)
  from i1 i2
    trans [OF bn [THEN conjunct1] v(1)] trans [OF bn [THEN conjunct2] v(2)]
    trans [OF bp [THEN conjunct1] v(3)] trans [OF bp [THEN conjunct2] v(4)]
    trans [OF sn [THEN conjunct1] v(5)] trans [OF sn [THEN conjunct2] v(6)]
    trans [OF sp [THEN conjunct1] v(7)] trans [OF sp [THEN conjunct2] v(8)]
  show ?thesis by (intro conjI)
qed

section \<open>The author-year filter\<close>

lemma authorYears_v2_only_TypeError: "authorYears_v2 books = Inl e \<Longrightarrow> e = TypeError"
  by (induction books arbitrary: e)
     (auto simp: firstAuthor_def split: list.splits sum.splits)

lemma authorYears_v2_error_member:
  "b \<in> set books \<Longrightarrow> authors b = [] \<Longrightarrow> authorYears_v2 books = Inl TypeError"
proof (induction books)
  case Nil
  then show ?case by simp
next
  case (Cons a books)
  show ?case
  proof (cases "authors a")
    case Nil
    then show ?thesis by (simp add: firstAuthor_def)
  next
    case (Cons x xs)
    with Cons.prems have "b \<in> set books" by auto
    with Cons.IH Cons.prems(2) have "authorYears_v2 books = Inl TypeError" by simp
    with Cons show ?thesis by (simp add: firstAuthor_def)
  qed
qed

lemma authorYears_v2_error:
  "(\<exists>b\<in>set books. authors b = []) \<Longrightarrow> authorYears_v2 books = Inl TypeError"
  using authorYears_v2_error_member by blast

lemma authorYears_v2_ok:
  "(\<forall>b\<in>set books. authors b \<noteq> []) \<Longrightarrow> \<exists>ys. authorYears_v2 books = Inr ys"
  by (induction books) (auto simp: firstAuthor_def split: list.splits sum.splits)

lemma filter_throwing_keeps_v2:
  "(\<forall>b\<in>set books. authors b \<noteq> []) \<Longrightarrow>
   filter_throwing (keeps_v2 tn fv) books = Inr (filter (keeps_first tn fv) books)"
  by (induction books)
     (auto simp: keeps_v2_def keeps_first_def firstAuthor_def split: list.splits sum.splits)

lemma keeps_first_firstAuthorOnly:
  "keeps_first tn fv (firstAuthorOnly b) = keeps_first tn fv b"
  by (cases "authors b") (simp_all add: keeps_first_def firstAuthorOnly_def)

lemma authors_firstAuthorOnly_Nil: "(authors (firstAuthorOnly b) = []) = (authors b = [])"
  by (cases "authors b") (simp_all add: firstAuthorOnly_def)

lemma filterBooks_v2_author_year_cases:
  assumes "fv \<noteq> []"
  shows "filterBooks_v2 tn books ''author_year'' fv =
           (if \<exists>b\<in>set books. authors b = [] then Inl TypeError
            else Inr (filter (keeps_first tn fv) books))"
proof (cases "\<exists>b\<in>set books. authors b = []")
  case True
  then show ?thesis
    using assms by (simp add: filterBooks_v2_def authorYears_v2_error)
next
  case False
  then have ne: "\<forall>b\<in>set books. authors b \<noteq> []" by simp
  from authorYears_v2_ok [OF ne] obtain ys where "authorYears_v2 books = Inr ys" ..
  then show ?thesis
    using assms False by (simp add: filterBooks_v2_def filter_throwing_keeps_v2 [OF ne])
qed

text \<open>
  Claim C10. In variant 2, with a non-empty \<^verbatim>\<open>filterValue\<close>, the \<^verbatim>\<open>author_year\<close> filter throws
  a TypeError as soon as one record of the list has no author, instead of excluding that
  record; when every record has an author it keeps exactly the records whose first author's
  years (\<^verbatim>\<open>null\<close> read as 0) enclose the value; and removing all authors but the first from
  every record changes neither the error nor the selection.
\<close>

theorem filterBooks_v2_author_year_first_author:
  assumes "fv \<noteq> []"
  shows "((\<exists>b\<in>set books. authors b = [])
            \<longrightarrow> filterBooks_v2 tn books ''author_year'' fv = Inl TypeError)
       \<and> ((\<forall>b\<in>set books. authors b \<noteq> [])
            \<longrightarrow> filterBooks_v2 tn books ''author_year'' fv
                  = Inr (filter (\<lambda>b. js_le (num_of_nullable (birth_year (hd (authors b)))) (tn fv)
                                    \<and> js_le (tn fv) (num_of_nullable (death_year (hd (authors b)))))
                           books))
       \<and> filterBooks_v2 tn (map firstAuthorOnly books) ''author_year'' fv
           = (case filterBooks_v2 tn books ''author_year'' fv of
                Inl e \<Rightarrow> Inl e
              | Inr kept \<Rightarrow> Inr (map firstAuthorOnly kept))"
proof (intro conjI impI)
  assume "\<exists>b\<in>set books. authors b = []"
  then show "filterBooks_v2 tn books ''author_year'' fv = Inl TypeError"
    by (simp add: filterBooks_v2_author_year_cases [OF assms])
next
  assume "\<forall>b\<in>set books. authors b \<noteq> []"
  then show "filterBooks_v2 tn books ''author_year'' fv
               = Inr (filter (\<lambda>b. js_le (num_of_nullable (birth_year (hd (authors b)))) (tn fv)
                                 \<and> js_le (tn fv) (num_of_nullable (death_year (hd (authors b)))))
                        books)"
    by (simp add: filterBooks_v2_author_year_cases [OF assms] keeps_first_def [abs_def])
next
  have "filter (keeps_first tn fv) (map firstAuthorOnly books)
          = map firstAuthorOnly (filter (keeps_first tn fv) books)"
    by (simp add: filter_map o_def keeps_first_firstAuthorOnly)
  then show "filterBooks_v2 tn (map firstAuthorOnly books) ''author_year'' fv
           = (case filterBooks_v2 tn books ''author_year'' fv of
                Inl e \<Rightarrow> Inl e
              | Inr kept \<Rightarrow> Inr (map firstAuthorOnly kept))"
    by (simp add: filterBooks_v2_author_year_cases [OF assms] authors_firstAuthorOnly_Nil)
qed

theorem filterBooks_v2_author_year_first_author_witness:
  "''1825'' \<noteq> []
 \<and> filterBooks_v2 decimalToNumber [exampleOneAuthor, exampleNoAuthors] ''author_year'' ''1825''
      = Inl TypeError
 \<and> filterBooks_v2 decimalToNumber [exampleTwoAuthors, exampleNoYears] ''author_year'' ''1825''
      = Inr [exampleTwoAuthors]
 \<and> filterBooks_v2 decimalToNumber (map firstAuthorOnly [exampleTwoAuthors, exampleNoYears])
        ''author_year'' ''1825''
      = Inr (map firstAuthorOnly [exampleTwoAuthors])"
proof -
  note ev = exampleNoAuthors_def exampleOneAuthor_def exampleTwoAuthors_def exampleNoYears_def
    exampleBook_def exampleAuthor_def decimalToNumber_def is_digit_def digit_val_def
    num_of_nullable_def num_of_int_def
  have h: "''1825'' \<noteq> []" by simp
  have e1: "\<exists>b\<in>set [exampleOneAuthor, exampleNoAuthors]. authors b = []"
    by (simp add: ev)
  have e2: "\<forall>b\<in>set [exampleTwoAuthors, exampleNoYears]. authors b \<noteq> []"
    by (simp add: ev)
  note t1 = filterBooks_v2_author_year_first_author [OF h,
    of "[exampleOneAuthor, exampleNoAuthors]" decimalToNumber, THEN conjunct1, THEN mp, OF e1]
  note t = filterBooks_v2_author_year_first_author [OF h,
    of "[exampleTwoAuthors, exampleNoYears]" decimalToNumber]
  have v: "Inr (filter (\<lambda>b. js_le (num_of_nullable (birth_year (hd (authors b)))) (decimalToNumber ''1825'')
                            \<and> js_le (decimalToNumber ''1825'') (num_of_nullable (death_year (hd (authors b)))))
                  [exampleTwoAuthors, exampleNoYears])
             = (Inr [exampleTwoAuthors] :: jserror + book list)"
    by (simp add: ev)
  note t2 = trans [OF t [THEN conjunct2, THEN conjunct1, THEN mp, OF e2] v]
  have t3: "filterBooks_v2 decimalToNumber (map firstAuthorOnly [exampleTwoAuthors, exampleNoYears])
              ''author_year'' ''1825'' = Inr (map firstAuthorOnly [exampleTwoAuthors])"
    using t [THEN conjunct2, THEN conjunct2] unfolding t2 by simp
  from h t1 t2 t3 show ?thesis by (intro conjI)
qed


lemma Math_min_present:
  "Math_min (map num_of_nullable (filter (\<lambda>y. y \<noteq> None) ys))
     = (if present ys = [] then PosInf else num_of_int (Min (set (present ys))))"
proof (induction ys)
  case Nil
  show ?case by (simp add: Math_min_def)
next
  case (Cons y ys)
  show ?case
  proof (cases y)
    case None
    with Cons show ?thesis by simp
  next
    case (Some v)
    show ?thesis
    proof (cases "present ys = []")
      case True
      with Cons Some show ?thesis
        by (simp add: Math_min_def num_of_nullable_def num_of_int_def)
    next
      case False
      with Cons Some show ?thesis
        by (simp add: Math_min_def num_of_nullable_def num_of_int_def min_def)
    qed
  qed
qed

lemma Math_max_present:
  "Math_max (map num_of_nullable (filter (\<lambda>y. y \<noteq> None) ys))
     = (if present ys = [] then NegInf else num_of_int (Max (set (present ys))))"
proof (induction ys)
  case Nil
  show ?case by (simp add: Math_max_def)
next
  case (Cons y ys)
  show ?case
  proof (cases y)
    case None
    with Cons show ?thesis by simp
  next
    case (Some v)
    show ?thesis
    proof (cases "present ys = []")
      case True
      with Cons Some show ?thesis
        by (simp add: Math_max_def num_of_nullable_def num_of_int_def)
    next
      case False
      with Cons Some show ?thesis
        by (simp add: Math_max_def num_of_nullable_def num_of_int_def max_def)
    qed
  qed
qed

lemma js_le_PosInf_NegInf: "\<not> (js_le PosInf v \<and> js_le v NegInf)"
  by (cases v) simp_all

lemma js_le_PosInf_Fin: "\<not> (js_le PosInf v \<and> js_le v (Fin x))"
  by (cases v) simp_all

lemma js_le_Fin_NegInf: "\<not> (js_le (Fin x) v \<and> js_le v NegInf)"
  by (cases v) simp_all

text \<open>
  Variant 3 implements the \<^verbatim>\<open>author_year\<close> filter of the specification: for a non-empty
  \<^verbatim>\<open>filterValue\<close> it keeps exactly the records within the lifespans of their authors.
\<close>

lemma keeps_v3_within_lifespans: "keeps_v3 tn fv b = within_lifespans (tn fv) b"
proof -
  let ?bs = "present (map birth_year (authors b))"
  let ?ds = "present (map death_year (authors b))"
  note facts = js_le_PosInf_NegInf [of "tn fv"] js_le_PosInf_Fin [of "tn fv"]
    js_le_Fin_NegInf [of _ "tn fv"]
  show ?thesis
    unfolding keeps_v3_def within_lifespans_def Let_def Math_min_present Math_max_present
    using facts by (cases "?bs = []"; cases "?ds = []"; simp add: num_of_int_def)
qed

lemma filterBooks_v3_author_year:
  "fv \<noteq> [] \<Longrightarrow>
   filterBooks_v3 tn books ''author_year'' fv = filter (within_lifespans (tn fv)) books"
  by (simp add: filterBooks_v3_def keeps_v3_within_lifespans [abs_def])

lemma within_lifespans_no_authors: "authors b = [] \<Longrightarrow> \<not> within_lifespans v b"
  by (simp add: within_lifespans_def)

lemma present_all_None: "(\<forall>y\<in>set ys. y = None) \<Longrightarrow> present ys = []"
  by (induction ys) auto

lemma within_lifespans_no_years:
  "(\<forall>a\<in>set (authors b). birth_year a = None \<and> death_year a = None) \<Longrightarrow> \<not> within_lifespans v b"
  by (simp add: within_lifespans_def present_all_None)

text \<open>
  Claim C1 at records on which variant 2 departs from it. A record without authors makes
  the \<^verbatim>\<open>author_year\<close> filter of variant 2 throw, where the claim (and variant 3) excludes
  the record; a record whose second author was alive in 1750 and whose first was not is
  within the lifespans of its authors and is kept by variant 3, and variant 2 drops it.
  On the example of the claim (one author, 1800 to 1850) both variants keep the record for
  1825 and exclude it for 1900.
\<close>

theorem author_year_variant2_divergence:
  "filterBooks_v2 decimalToNumber [exampleNoAuthors] ''author_year'' ''1825'' = Inl TypeError
 \<and> filterBooks_v3 decimalToNumber [exampleNoAuthors] ''author_year'' ''1825'' = []
 \<and> within_lifespans (decimalToNumber ''1750'') exampleTwoAuthors
 \<and> filterBooks_v2 decimalToNumber [exampleTwoAuthors] ''author_year'' ''1750'' = Inr []
 \<and> filterBooks_v3 decimalToNumber [exampleTwoAuthors] ''author_year'' ''1750'' = [exampleTwoAuthors]
 \<and> filterBooks_v2 decimalToNumber [exampleOneAuthor] ''author_year'' ''1825'' = Inr [exampleOneAuthor]
 \<and> filterBooks_v2 decimalToNumber [exampleOneAuthor] ''author_year'' ''1900'' = Inr []
 \<and> filterBooks_v3 decimalToNumber [exampleOneAuthor] ''author_year'' ''1825'' = [exampleOneAuthor]
 \<and> filterBooks_v3 decimalToNumber [exampleOneAuthor] ''author_year'' ''1900'' = []"
proof (intro conjI)
  note ev_books = exampleNoAuthors_def exampleOneAuthor_def exampleTwoAuthors_def
    exampleBook_def exampleAuthor_def
  note ev_num = decimalToNumber_def is_digit_def digit_val_def num_of_nullable_def num_of_int_def
  note ev_v2 = filterBooks_v2_def firstAuthor_def keeps_v2_def
  note ev_v3 = filterBooks_v3_def keeps_v3_def Math_min_def Math_max_def Let_def
  show "filterBooks_v2 decimalToNumber [exampleNoAuthors] ''author_year'' ''1825'' = Inl TypeError"
    by (simp add: ev_v2 ev_books)
  show "filterBooks_v3 decimalToNumber [exampleNoAuthors] ''author_year'' ''1825'' = []"
    by (simp add: ev_v3 ev_books ev_num)
  show "within_lifespans (decimalToNumber ''1750'') exampleTwoAuthors"
    by (simp add: within_lifespans_def ev_books ev_num)
  show "filterBooks_v2 decimalToNumber [exampleTwoAuthors] ''author_year'' ''1750'' = Inr []"
    by (simp add: ev_v2 ev_books ev_num)
  show "filterBooks_v3 decimalToNumber [exampleTwoAuthors] ''author_year'' ''1750'' = [exampleTwoAuthors]"
    by (simp add: ev_v3 ev_books ev_num)
  show "filterBooks_v2 decimalToNumber [exampleOneAuthor] ''author_year'' ''1825'' = Inr [exampleOneAuthor]"
    by (simp add: ev_v2 ev_books ev_num)
  show "filterBooks_v2 decimalToNumber [exampleOneAuthor] ''author_year'' ''1900'' = Inr []"
    by (simp add: ev_v2 ev_books ev_num)
  show "filterBooks_v3 decimalToNumber [exampleOneAuthor] ''author_year'' ''1825'' = [exampleOneAuthor]"
    by (simp add: ev_v3 ev_books ev_num)
  show "filterBooks_v3 decimalToNumber [exampleOneAuthor] ''author_year'' ''1900'' = []"
    by (simp add: ev_v3 ev_books ev_num)
qed

section \<open>The derived view\<close>

lemma handleSearch_results:
  "results (handleSearch net pg s) = [] \<longrightarrow> sortedResults (handleSearch net pg s) = []"
  if "results s = [] \<longrightarrow> sortedResults s = []"
  using that by (simp add: handleSearch_def split: prod.splits sum.splits)

lemma handleShowAllBooks_results:
  "sortedResults (handleShowAllBooks net pg s) = results (handleShowAllBooks net pg s)"
  by (simp add: handleShowAllBooks_def split: prod.splits)

lemma handle_results:
  assumes "results s = [] \<longrightarrow> sortedResults s = []"
  shows "results (handle a s) = [] \<longrightarrow> sortedResults (handle a s) = []"
proof (cases a)
  case (Search net)
  then show ?thesis using handleSearch_results [OF assms] by simp
next
  case (ShowAllBooks net)
  then show ?thesis by (simp add: handleShowAllBooks_results)
next
  case (NextPage net)
  then show ?thesis
    using handleSearch_results [OF assms] assms
    by (simp add: handleNextPage_def handleShowAllBooks_results)
next
  case (PreviousPage net)
  then show ?thesis
    using handleSearch_results [OF assms] assms
    by (simp add: handlePreviousPage_def handleShowAllBooks_results)
qed (use assms in simp_all)

lemma derived_results: "derived ck filt s \<Longrightarrow> results s = [] \<longrightarrow> sortedResults s = []"
  by (simp add: derived_def sortBooks_Nil)

lemma settle_fixpoint:
  assumes "derived ck filt s"
  shows "settle ck filt s = Inr s"
proof -
  from assms have srt: "sortBooks ck (results s) (sortOrder s) = sortedResults s"
    and flt: "filt (sortedResults s) (filterType s) (filterValue s) = Inr (filteredResults s)"
    by (simp_all add: derived_def)
  have "sortEffect ck s = s"
    by (simp add: sortEffect_def srt)
  then show ?thesis
    by (simp add: settle_def filterEffect_def flt)
qed

lemma settle_derived:
  assumes "results s = [] \<longrightarrow> sortedResults s = []" and "settle ck filt s = Inr s'"
  shows "derived ck filt s'
       \<and> results s' = results s \<and> sortOrder s' = sortOrder s
       \<and> filterType s' = filterType s \<and> filterValue s' = filterValue s"
proof -
  have srt: "sortedResults (sortEffect ck s) = sortBooks ck (results s) (sortOrder s)"
    using assms(1) by (simp add: sortEffect_def sortBooks_Nil)
  have frame: "results (sortEffect ck s) = results s" "sortOrder (sortEffect ck s) = sortOrder s"
    "filterType (sortEffect ck s) = filterType s" "filterValue (sortEffect ck s) = filterValue s"
    by (simp_all add: sortEffect_def)
  from assms(2) obtain filtered where
    f: "filt (sortedResults (sortEffect ck s)) (filterType s) (filterValue s) = Inr filtered"
    and s': "s' = (sortEffect ck s)\<lparr>filteredResults := filtered\<rparr>"
    by (auto simp: settle_def filterEffect_def frame split: sum.splits)
  show ?thesis
    using f srt frame by (simp add: s' derived_def)
qed

lemma step_settled:
  assumes "derived ck filt s" and "step ck filt a s = Inr s'"
  shows "derived ck filt s'
       \<and> results s' = results (handle a s) \<and> sortOrder s' = sortOrder (handle a s)
       \<and> filterType s' = filterType (handle a s) \<and> filterValue s' = filterValue (handle a s)"
proof -
  have pre: "results (handle a s) = [] \<longrightarrow> sortedResults (handle a s) = []"
    by (rule handle_results [OF derived_results [OF assms(1)]])
  have "settle ck filt (handle a s) = Inr s'"
    using assms(2) by (simp add: step_def)
  from settle_derived [OF pre this] show ?thesis .
qed

lemma step_derived:
  assumes "derived ck filt s" and "step ck filt a s = Inr s'"
  shows "derived ck filt s'"
  using step_settled [OF assms] by (rule conjunct1)

lemma run_derived:
  "derived ck filt s \<Longrightarrow> run ck filt acts s = Inr s' \<Longrightarrow> derived ck filt s'"
proof (induction acts arbitrary: s)
  case Nil
  then show ?case by simp
next
  case (Cons a acts)
  from Cons.prems(2) obtain s1 where s1: "step ck filt a s = Inr s1"
    and r: "run ck filt acts s1 = Inr s'"
    by (auto split: sum.splits)
  from Cons.IH [OF step_derived [OF Cons.prems(1) s1] r] show ?case .
qed

lemma step_total_v3: "\<exists>s'. step ck (filt_v3 tn) a s = Inr s'"
  by (simp add: step_def settle_def filterEffect_def filt_v3_def)

lemma run_total_v3: "\<exists>s'. run ck (filt_v3 tn) acts s = Inr s'"
proof (induction acts arbitrary: s)
  case Nil
  show ?case by simp
next
  case (Cons a acts)
  from step_total_v3 obtain s1 where "step ck (filt_v3 tn) a s = Inr s1" by blast
  with Cons.IH [of s1] show ?case by simp
qed

lemma derived_init_v2: "derived ck (filt_v2 tn) init_v2"
  by (simp add: derived_def init_v2_def sortBooks_Nil filt_v2_def filterBooks_v2_def)

lemma derived_init_v3: "derived ck (filt_v3 tn) init_v3"
  by (simp add: derived_def init_v3_def sortBooks_Nil filt_v3_def filterBooks_v3_def)






















text \<open>
  Claim C2, as amended. In every state that a sequence of actions reaches from the initial
  state, once the derivation effects have run, \<^verbatim>\<open>filteredResults\<close> is the filter of the sort
  of the current \<^verbatim>\<open>results\<close> by the current \<^verbatim>\<open>sortOrder\<close>, \<^verbatim>\<open>filterType\<close> and
  \<^verbatim>\<open>filterValue\<close> (variant 2: whenever no filter has thrown; variant 3: always, and such a
  state is always reached). When a fetch completes, \<^verbatim>\<open>handleShowAllBooks\<close> and
  \<^verbatim>\<open>handleSearch\<close> first assign the fetched page's results to \<^verbatim>\<open>filteredResults\<close>; the
  effects then overwrite them.
\<close>

theorem filteredResults_derived_when_settled:
  "(run ck (filt_v2 tn) acts init_v2 = Inr s \<longrightarrow>
      filterBooks_v2 tn (sortBooks ck (results s) (sortOrder s)) (filterType s) (filterValue s)
        = Inr (filteredResults s))
 \<and> (\<exists>s3. run ck (filt_v3 tn) acts init_v3 = Inr s3
        \<and> filteredResults s3
            = filterBooks_v3 tn (sortBooks ck (results s3) (sortOrder s3)) (filterType s3) (filterValue s3))
 \<and> filteredResults (handleShowAllBooks net pg s0) = p_results (snd (getBookList net (sortOrder s0) pg))
 \<and> (searchBooks net (searchTerm s0) (selectedSearchType s0) (sortOrder s0) pg = (reqs, Inr data)
      \<longrightarrow> filteredResults (handleSearch net pg s0) = p_results data)"
proof (intro conjI impI)
  assume "run ck (filt_v2 tn) acts init_v2 = Inr s"
  from run_derived [OF derived_init_v2 this]
  show "filterBooks_v2 tn (sortBooks ck (results s) (sortOrder s)) (filterType s) (filterValue s)
          = Inr (filteredResults s)"
    by (simp add: derived_def filt_v2_def)
next
  from run_total_v3 obtain s3 where r: "run ck (filt_v3 tn) acts init_v3 = Inr s3" by blast
  from run_derived [OF derived_init_v3 r]
  have "filteredResults s3
          = filterBooks_v3 tn (sortBooks ck (results s3) (sortOrder s3)) (filterType s3) (filterValue s3)"
    by (simp add: derived_def filt_v3_def)
  with r show "\<exists>s3. run ck (filt_v3 tn) acts init_v3 = Inr s3
        \<and> filteredResults s3
            = filterBooks_v3 tn (sortBooks ck (results s3) (sortOrder s3)) (filterType s3) (filterValue s3)"
    by blast
next
  show "filteredResults (handleShowAllBooks net pg s0) = p_results (snd (getBookList net (sortOrder s0) pg))"
    by (simp add: handleShowAllBooks_def split: prod.splits)
next
  assume "searchBooks net (searchTerm s0) (selectedSearchType s0) (sortOrder s0) pg = (reqs, Inr data)"
  then show "filteredResults (handleSearch net pg s0) = p_results data"
    by (simp add: handleSearch_def)
qed

theorem filteredResults_derived_when_settled_witness:
  "run byteOrder (filt_v2 decimalToNumber) exampleSession init_v2 = Inr exampleSettled
 \<and> filterBooks_v2 decimalToNumber
        (sortBooks byteOrder (results exampleSettled) (sortOrder exampleSettled))
        (filterType exampleSettled) (filterValue exampleSettled)
      = Inr (filteredResults exampleSettled)
 \<and> filteredResults exampleSettled = [exampleTwoAuthors, exampleOneAuthor]
 \<and> (\<exists>s3. run byteOrder (filt_v3 decimalToNumber) exampleSession init_v3 = Inr s3
        \<and> filteredResults s3
            = filterBooks_v3 decimalToNumber (sortBooks byteOrder (results s3) (sortOrder s3))
                (filterType s3) (filterValue s3))
 \<and> filteredResults (handleShowAllBooks exampleShelfNet 1 init_v2)
      = p_results (snd (getBookList exampleShelfNet (sortOrder init_v2) 1))
 \<and> searchBooks exampleShelfNet (searchTerm exampleSearching) (selectedSearchType exampleSearching)
        (sortOrder exampleSearching) 1
      = ([''https://gutendex.com/books?search=verne&sort=descending_popular&page=1''],
         Inr \<lparr>p_count = 3, p_next = None, p_previous = None, p_results = exampleShelf\<rparr>)
 \<and> filteredResults (handleSearch exampleShelfNet 1 exampleSearching)
      = p_results \<lparr>p_count = 3, p_next = None, p_previous = None, p_results = exampleShelf\<rparr>"
proof -
  note ev = exampleSession_def exampleSettled_def exampleShelfNet_def exampleShelf_def
    exampleOneAuthor_def exampleTwoAuthors_def exampleNoYears_def
    exampleBook_def exampleAuthor_def init_v2_def
    step_def settle_def sortEffect_def filterEffect_def filt_v2_def
    handleShowAllBooks_def getBookList_def fetchPage_def bookListUrl_def API_BASE_URL_def
    String_of_int_def digit_char_def
    sortBooks_def Array_sort_def sort_by_def cmp_le_def cmp_alphabetical_def localeCompare_def
    byteOrder_def cmp_descending_popular_def num_of_int_def
    filterBooks_v2_def firstAuthor_def keeps_v2_def Let_def
    decimalToNumber_def is_digit_def digit_val_def num_of_nullable_def
  let ?P = "\<lparr>p_count = 3, p_next = None, p_previous = None, p_results = exampleShelf\<rparr>"
  let ?U = "[''https://gutendex.com/books?search=verne&sort=descending_popular&page=1'']"
  have r2: "run byteOrder (filt_v2 decimalToNumber) exampleSession init_v2 = Inr exampleSettled"
    by (simp add: ev)
  have f: "filteredResults exampleSettled = [exampleTwoAuthors, exampleOneAuthor]"
    by (simp add: exampleSettled_def)
  have sb: "searchBooks exampleShelfNet (searchTerm exampleSearching)
              (selectedSearchType exampleSearching) (sortOrder exampleSearching) 1 = (?U, Inr ?P)"
    by (simp add: searchBooks_def validSearchTypes_def fetchPage_def searchUrl_def
          exampleSearching_def exampleBrowsing_def init_v2_def exampleShelfNet_def
          API_BASE_URL_def String_of_int_def digit_char_def encodeURIComponent_def
          uri_unreserved_def)
  note t = filteredResults_derived_when_settled [where ck = byteOrder and tn = decimalToNumber
    and acts = exampleSession and s = exampleSettled and net = exampleShelfNet and pg = 1
    and s0 = init_v2]
  note u = filteredResults_derived_when_settled [where ck = byteOrder and tn = decimalToNumber
    and acts = exampleSession and s = exampleSettled and net = exampleShelfNet and pg = 1
    and s0 = exampleSearching and reqs = ?U and data = ?P]
  note c1 = t [THEN conjunct1, THEN mp, OF r2]
  note c2 = t [THEN conjunct2, THEN conjunct1]
  note c3 = t [THEN conjunct2, THEN conjunct2, THEN conjunct1]
  note c4 = u [THEN conjunct2, THEN conjunct2, THEN conjunct2, THEN mp, OF sb]
  from r2 c1 f c2 c3 sb c4 show ?thesis by (intro conjI)
qed

text \<open>
  Claim C2 as stated fails where it says that \<^verbatim>\<open>filteredResults\<close> is never set to the raw
  page results: when the fetch of \<^verbatim>\<open>handleShowAllBooks\<close> completes, \<^verbatim>\<open>filteredResults\<close> is
  the fetched page in the order of the response, which is not the filter of the sort of
  \<^verbatim>\<open>results\<close> (here the sort by descending popularity moves the second record first).
\<close>

theorem filteredResults_set_to_raw_page_counterexample:
  "filteredResults (handleShowAllBooks exampleNet 1 init_v2) = p_results examplePage
 \<and> results (handleShowAllBooks exampleNet 1 init_v2) = p_results examplePage
 \<and> filterBooks_v2 decimalToNumber
        (sortBooks byteOrder (results (handleShowAllBooks exampleNet 1 init_v2))
           (sortOrder (handleShowAllBooks exampleNet 1 init_v2)))
        (filterType (handleShowAllBooks exampleNet 1 init_v2))
        (filterValue (handleShowAllBooks exampleNet 1 init_v2))
      = Inr [exampleBook 2 ''A'' 9 [], exampleBook 1 ''B'' 5 [], exampleBook 3 ''C'' 5 []]
 \<and> filteredResults (handleShowAllBooks exampleNet 1 init_v2)
      \<noteq> [exampleBook 2 ''A'' 9 [], exampleBook 1 ''B'' 5 [], exampleBook 3 ''C'' 5 []]"
  by (simp add: handleShowAllBooks_def getBookList_def fetchPage_def exampleNet_def
        examplePage_def exampleResults_def exampleBook_def init_v2_def
        sortBooks_def Array_sort_def sort_by_def cmp_le_def cmp_descending_popular_def
        num_of_int_def filterBooks_v2_def)

end
